theory Spec2Isabelle
  imports Complex_Main "HOL-Library.Sublist"
begin

section \<open>The spam classification workflow of \<^verbatim>\<open>main.py\<close>\<close>

text \<open>
  The workflow \<^verbatim>\<open>classify_spam_workflow\<close> lists messages through a mail tool server,
  fetches every listed message, asks a language model for a classification and returns a
  dictionary of counts and per-message projections. Both collaborators are external: they
  are parameters of the model, they may answer differently on every call (each call takes
  and returns the state of the outside world), and each call either returns a value or
  raises. The run records every collaborator call, with its answer, and every line it
  logs inside the listing and the loop, in a trace.
\<close>

subsection \<open>Exceptions\<close>

text \<open>
  \<^verbatim>\<open>except Exception\<close> catches the subclasses of \<^verbatim>\<open>Exception\<close> only. What is raised
  outside that hierarchy (\<^verbatim>\<open>KeyboardInterrupt\<close>, \<^verbatim>\<open>asyncio.CancelledError\<close>) is a
  \<open>BaseException\<close> here and is never caught by the workflow.
\<close>

datatype exn =
    ValueError string
  | ZeroDivisionError
  | Exception string
  | BaseException string

fun is_Exception :: "exn \<Rightarrow> bool" where
  "is_Exception (BaseException _) = False"
| "is_Exception _ = True"

subsection \<open>Dictionaries and returned values\<close>

text \<open>
  A dictionary is an association list in insertion order. \<open>dict_get\<close> is \<^verbatim>\<open>d.get(k)\<close>
  (\<open>None\<close> for a missing key), \<open>dict_get_default\<close> is \<^verbatim>\<open>d.get(k, default)\<close>.
\<close>

type_synonym 'v dict = "(string \<times> 'v) list"

definition dict_get :: "'v dict \<Rightarrow> string \<Rightarrow> 'v option" where
  "dict_get d k = map_of d k"

definition dict_get_default :: "'v dict \<Rightarrow> string \<Rightarrow> 'v \<Rightarrow> 'v" where
  "dict_get_default d k dflt = (case map_of d k of None \<Rightarrow> dflt | Some v \<Rightarrow> v)"

text \<open>
  The values of the returned dictionary. The type \<open>'f\<close> stands for Python's \<^verbatim>\<open>float\<close>:
  floating point arithmetic is not interpreted, its three operations used by the workflow
  are parameters (see \<open>app\<close> below).
\<close>

datatype 'f pyval =
    PNone
  | PBool bool
  | PInt int
  | PFloat 'f
  | PStr string
  | PList "'f pyval list"
  | PDict "(string \<times> 'f pyval) list"

subsection \<open>The data classes\<close>

record SpamType =
  category :: string

record 'f EmailClassification =
  is_spam :: bool
  confidence :: 'f
  spam_type :: SpamType
  reasoning :: string
  recommended_action :: string

record 'f EmailInfo =
  email_id :: string
  subject :: string
  from_address :: string
  snippet :: string
  classification :: "'f EmailClassification option"

text \<open>The schema handed to the language model: the fields of \<^verbatim>\<open>EmailClassification\<close>.\<close>

datatype field_type =
    TBool
  | TFloat_ge_le rat rat
  | TStr
  | TModel "(string \<times> field_type) list"

definition SpamType_schema :: "(string \<times> field_type) list" where
  "SpamType_schema = [(''category'', TStr)]"

definition EmailClassification_schema :: "(string \<times> field_type) list" where
  "EmailClassification_schema =
     [(''is_spam'', TBool),
      (''confidence'', TFloat_ge_le 0 1),
      (''spam_type'', TModel SpamType_schema),
      (''reasoning'', TStr),
      (''recommended_action'', TStr)]"

subsection \<open>The collaborators\<close>

text \<open>
  A listed message is a dictionary with an optional \<^verbatim>\<open>"id"\<close>; the listing answer is a
  dictionary with an optional \<^verbatim>\<open>"messages"\<close>; a fetched message is a dictionary with
  optional \<^verbatim>\<open>"subject"\<close>, \<^verbatim>\<open>"from"\<close> and \<^verbatim>\<open>"snippet"\<close>. Their values are strings, as the
  collaborator's contract types them.
\<close>

type_synonym message = "string dict"
type_synonym list_result = "message list dict"
type_synonym email_result = "string dict"

record chat_message =
  role :: string
  content :: string

record llm_request =
  messages :: "chat_message list"
  output_schema :: "(string \<times> field_type) list"
  temperature :: rat

text \<open>
  The mail server offers the two tools the workflow calls through \<^verbatim>\<open>call_tool\<close>:
  \<^verbatim>\<open>gmail_list_messages\<close> with \<^verbatim>\<open>max_results\<close> and \<^verbatim>\<open>label_ids\<close>, and \<^verbatim>\<open>gmail_get_message\<close>
  with \<^verbatim>\<open>message_id\<close>.
\<close>

record 'w gmail_server =
  gmail_list_messages :: "int \<Rightarrow> string list \<Rightarrow> 'w \<Rightarrow> (exn + list_result) \<times> 'w"
  gmail_get_message :: "string \<Rightarrow> 'w \<Rightarrow> (exn + email_result) \<times> 'w"

text \<open>
  The application object: its configured servers, its language model, and the float
  operations of the summary: \<open>float_truediv a b\<close> is \<^verbatim>\<open>a / b\<close> on integers for \<open>b \<noteq> 0\<close>,
  \<open>float_mul x k\<close> is \<^verbatim>\<open>x * k\<close>, \<open>float_round x n\<close> is \<^verbatim>\<open>round(x, n)\<close>.
\<close>

record ('w, 'f) app =
  mcp_servers :: "'w gmail_server dict"
  llm_run :: "llm_request \<Rightarrow> 'w \<Rightarrow> (exn + 'f EmailClassification) \<times> 'w"
  float_truediv :: "int \<Rightarrow> int \<Rightarrow> 'f"
  float_mul :: "'f \<Rightarrow> int \<Rightarrow> 'f"
  float_round :: "'f \<Rightarrow> int \<Rightarrow> 'f"

subsection \<open>The trace of a run\<close>

datatype 'f event =
    CallListMessages int "string list" "exn + list_result"
  | CallGetMessage string "exn + email_result"
  | CallLlmRun llm_request "exn + 'f EmailClassification"
  | LogStarting int string
  | LogFetching string
  | LogNoEmails
  | LogFound nat
  | LogErrorListing exn
  | LogProcessing nat nat string
  | LogClassifying string
  | LogClassified bool 'f
  | LogErrorProcessing string exn

record ('w, 'f) run_state =
  world :: 'w
  trace :: "'f event list"

definition log :: "'f event \<Rightarrow> ('w, 'f) run_state \<Rightarrow> ('w, 'f) run_state" where
  "log ev st = st\<lparr>trace := trace st @ [ev]\<rparr>"

definition call_list_messages ::
  "'w gmail_server \<Rightarrow> int \<Rightarrow> string list \<Rightarrow> ('w, 'f) run_state
     \<Rightarrow> (exn + list_result) \<times> ('w, 'f) run_state" where
  "call_list_messages gmail max_results label_ids st =
     (case gmail_list_messages gmail max_results label_ids (world st) of
        (r, w) \<Rightarrow>
          (r, \<lparr>world = w, trace = trace st @ [CallListMessages max_results label_ids r]\<rparr>))"

definition call_get_message ::
  "'w gmail_server \<Rightarrow> string \<Rightarrow> ('w, 'f) run_state
     \<Rightarrow> (exn + email_result) \<times> ('w, 'f) run_state" where
  "call_get_message gmail message_id st =
     (case gmail_get_message gmail message_id (world st) of
        (r, w) \<Rightarrow> (r, \<lparr>world = w, trace = trace st @ [CallGetMessage message_id r]\<rparr>))"

definition call_llm_run ::
  "('w, 'f) app \<Rightarrow> llm_request \<Rightarrow> ('w, 'f) run_state
     \<Rightarrow> (exn + 'f EmailClassification) \<times> ('w, 'f) run_state" where
  "call_llm_run ap req st =
     (case llm_run ap req (world st) of
        (r, w) \<Rightarrow> (r, \<lparr>world = w, trace = trace st @ [CallLlmRun req r]\<rparr>))"

subsection \<open>The prompt\<close>

text \<open>
  The f-string of the source: it opens with the line break after the opening quotes and
  closes with the one before the closing quotes.
\<close>

definition classification_prompt :: "string \<Rightarrow> string \<Rightarrow> string \<Rightarrow> string" where
  "classification_prompt frm subj snip =
     ''\<newline>Analyze this email and classify it as spam or not spam.\<newline>\<newline>**Email Details:**\<newline>- From: ''
     @ frm
     @ ''\<newline>- Subject: ''
     @ subj
     @ ''\<newline>- Preview: ''
     @ snip
     @ ''\<newline>\<newline>Consider the following factors:\<newline>1. Sender reputation and authenticity\<newline>2. Subject line characteristics (urgency, sensationalism, suspicious patterns)\<newline>3. Content quality and professionalism\<newline>4. Presence of phishing indicators\<newline>5. Marketing/promotional characteristics\<newline>\<newline>Provide a structured classification with confidence score, spam type, reasoning, and recommended action.\<newline>''"

text \<open>
  The template as the specification prints it, line by line: fifteen lines, of which
  three carry a substituted value, joined by line breaks.
\<close>

definition spec_template_lines :: "string \<Rightarrow> string \<Rightarrow> string \<Rightarrow> string list" where
  "spec_template_lines frm subj snip =
     [''Analyze this email and classify it as spam or not spam.'',
      '''',
      ''**Email Details:**'',
      ''- From: '' @ frm,
      ''- Subject: '' @ subj,
      ''- Preview: '' @ snip,
      '''',
      ''Consider the following factors:'',
      ''1. Sender reputation and authenticity'',
      ''2. Subject line characteristics (urgency, sensationalism, suspicious patterns)'',
      ''3. Content quality and professionalism'',
      ''4. Presence of phishing indicators'',
      ''5. Marketing/promotional characteristics'',
      '''',
      ''Provide a structured classification with confidence score, spam type, reasoning, and recommended action.'']"

fun join_lines :: "string list \<Rightarrow> string" where
  "join_lines [] = []"
| "join_lines [l] = l"
| "join_lines (l # ls) = l @ CHR 0x0A # join_lines ls"

definition spec_prompt_template :: "string \<Rightarrow> string \<Rightarrow> string \<Rightarrow> string" where
  "spec_prompt_template frm subj snip =
     join_lines (spec_template_lines frm subj snip)"

definition classification_request :: "string \<Rightarrow> string \<Rightarrow> string \<Rightarrow> llm_request" where
  "classification_request frm subj snip =
     \<lparr>messages = [\<lparr>role = ''user'',
                    content = classification_prompt frm subj snip\<rparr>],
      output_schema = EmailClassification_schema,
      temperature = 1 / 10\<rparr>"

subsection \<open>The body of the loop\<close>

text \<open>
  The statements inside \<^verbatim>\<open>try\<close> for one message id: fetch, defaults, record, prompt,
  classification, counts, append. An exception of a call leaves the collection and the
  counts as they were; the result is then \<open>Inl\<close>.
\<close>

type_synonym 'f acc = "'f EmailInfo list \<times> nat \<times> nat"

definition try_body ::
  "('w, 'f) app \<Rightarrow> 'w gmail_server \<Rightarrow> string \<Rightarrow> 'f acc \<Rightarrow> ('w, 'f) run_state
     \<Rightarrow> (exn + 'f acc) \<times> ('w, 'f) run_state" where
  "try_body ap gmail eid acc st =
     (case acc of (emails, spam_count, not_spam_count) \<Rightarrow>
      (case call_get_message gmail eid st of
         (Inl e, st1) \<Rightarrow> (Inl e, st1)
       | (Inr email_result, st1) \<Rightarrow>
           (let subj = dict_get_default email_result ''subject'' ''(no subject)'';
                frm = dict_get_default email_result ''from'' ''unknown'';
                snip = dict_get_default email_result ''snippet'' '''';
                email_info = \<lparr>email_id = eid, subject = subj, from_address = frm,
                              snippet = snip, classification = None\<rparr>;
                st2 = log (LogClassifying (take 50 subj)) st1
            in (case call_llm_run ap (classification_request frm subj snip) st2 of
                  (Inl e, st3) \<Rightarrow> (Inl e, st3)
                | (Inr c, st3) \<Rightarrow>
                    (let email_info = email_info\<lparr>classification := Some c\<rparr>;
                         spam_count = (if is_spam c then spam_count + 1 else spam_count);
                         not_spam_count =
                           (if is_spam c then not_spam_count else not_spam_count + 1);
                         emails = emails @ [email_info];
                         st4 = log (LogClassified (is_spam c) (confidence c)) st3
                     in (Inr (emails, spam_count, not_spam_count), st4))))))"

text \<open>
  The loop over \<^verbatim>\<open>enumerate(messages, 1)\<close>; \<open>n\<close> is \<^verbatim>\<open>len(messages)\<close>. An entry whose id
  is missing or empty is passed over; an \<^verbatim>\<open>Exception\<close> of the body is logged and the loop
  goes on; anything else leaves the loop and the workflow.
\<close>

fun process_messages ::
  "('w, 'f) app \<Rightarrow> 'w gmail_server \<Rightarrow> nat \<Rightarrow> nat \<Rightarrow> message list \<Rightarrow> 'f acc
     \<Rightarrow> ('w, 'f) run_state \<Rightarrow> (exn + 'f acc) \<times> ('w, 'f) run_state" where
  "process_messages ap gmail idx n [] acc st = (Inr acc, st)"
| "process_messages ap gmail idx n (msg # rest) acc st =
     (case dict_get msg ''id'' of
        None \<Rightarrow> process_messages ap gmail (idx + 1) n rest acc st
      | Some eid \<Rightarrow>
          if eid = [] then process_messages ap gmail (idx + 1) n rest acc st
          else
            (case try_body ap gmail eid acc (log (LogProcessing idx n eid) st) of
               (Inr acc', st') \<Rightarrow> process_messages ap gmail (idx + 1) n rest acc' st'
             | (Inl e, st') \<Rightarrow>
                 if is_Exception e
                 then process_messages ap gmail (idx + 1) n rest acc
                        (log (LogErrorProcessing eid e) st')
                 else (Inl e, st')))"

subsection \<open>The summary\<close>

definition email_projection :: "('w, 'f) app \<Rightarrow> 'f EmailInfo \<Rightarrow> 'f pyval dict" where
  "email_projection ap email =
     [(''email_id'', PStr (email_id email)),
      (''subject'', PStr (subject email)),
      (''from'', PStr (from_address email)),
      (''is_spam'',
         (case classification email of Some c \<Rightarrow> PBool (is_spam c) | None \<Rightarrow> PNone)),
      (''confidence'',
         (case classification email of
            Some c \<Rightarrow> PFloat (float_round ap (confidence c) 2) | None \<Rightarrow> PNone)),
      (''spam_type'',
         (case classification email of
            Some c \<Rightarrow> PStr (category (spam_type c)) | None \<Rightarrow> PNone)),
      (''reasoning'',
         (case classification email of Some c \<Rightarrow> PStr (reasoning c) | None \<Rightarrow> PNone)),
      (''recommended_action'',
         (case classification email of
            Some c \<Rightarrow> PStr (recommended_action c) | None \<Rightarrow> PNone))]"

text \<open>Python's \<^verbatim>\<open>/\<close> on integers raises on a zero divisor.\<close>

definition py_truediv :: "('w, 'f) app \<Rightarrow> int \<Rightarrow> int \<Rightarrow> exn + 'f" where
  "py_truediv ap a b = (if b = 0 then Inl ZeroDivisionError else Inr (float_truediv ap a b))"

definition spam_percentage_of ::
  "('w, 'f) app \<Rightarrow> nat \<Rightarrow> 'f EmailInfo list \<Rightarrow> exn + 'f pyval" where
  "spam_percentage_of ap spam_count emails =
     (if emails \<noteq> []
      then (case py_truediv ap (int spam_count) (int (length emails)) of
              Inl e \<Rightarrow> Inl e
            | Inr q \<Rightarrow> Inr (PFloat (float_round ap (float_mul ap q 100) 1)))
      else Inr (PInt 0))"

definition prepare_results ::
  "('w, 'f) app \<Rightarrow> 'f EmailInfo list \<Rightarrow> nat \<Rightarrow> nat \<Rightarrow> exn + 'f pyval dict" where
  "prepare_results ap emails spam_count not_spam_count =
     (case spam_percentage_of ap spam_count emails of
        Inl e \<Rightarrow> Inl e
      | Inr pct \<Rightarrow>
          Inr [(''total_processed'', PInt (int (length emails))),
               (''spam_count'', PInt (int spam_count)),
               (''not_spam_count'', PInt (int not_spam_count)),
               (''spam_percentage'', pct),
               (''emails'', PList (map (\<lambda>email. PDict (email_projection ap email)) emails))])"

subsection \<open>The workflow\<close>

text \<open>
  A run starts in a state of the outside world with an empty trace. The result is \<open>Inl\<close>
  when the workflow raises and \<open>Inr\<close> of the returned dictionary otherwise. The lines logged
  after the summary is built read the summary only and are left out.
\<close>

definition classify_spam_workflow ::
  "('w, 'f) app \<Rightarrow> int \<Rightarrow> string \<Rightarrow> 'w \<Rightarrow> (exn + 'f pyval dict) \<times> ('w, 'f) run_state" where
  "classify_spam_workflow ap max_emails label w =
     (let st = log (LogStarting max_emails label) \<lparr>world = w, trace = []\<rparr> in
      (case dict_get (mcp_servers ap) ''gmail'' of
         None \<Rightarrow> (Inl (ValueError ''Gmail MCP server not configured''), st)
       | Some gmail \<Rightarrow>
           (case call_list_messages gmail max_emails [label] (log (LogFetching label) st) of
              (Inl e, st1) \<Rightarrow>
                (Inl e, if is_Exception e then log (LogErrorListing e) st1 else st1)
            | (Inr list_result, st1) \<Rightarrow>
                (let msgs = dict_get_default list_result ''messages'' [] in
                 if msgs = []
                 then (Inr [(''total_processed'', PInt 0),
                            (''spam_count'', PInt 0),
                            (''not_spam_count'', PInt 0),
                            (''emails'', PList [])],
                       log LogNoEmails st1)
                 else
                   (case process_messages ap gmail 1 (length msgs) msgs ([], 0, 0)
                           (log (LogFound (length msgs)) st1) of
                      (Inl e, st2) \<Rightarrow> (Inl e, st2)
                    | (Inr (emails, spam_count, not_spam_count), st2) \<Rightarrow>
                        (case prepare_results ap emails spam_count not_spam_count of
                           Inl e \<Rightarrow> (Inl e, st2)
                         | Inr results \<Rightarrow> (Inr results, st2)))))))"

subsection \<open>What a run shows\<close>

text \<open>
  The well-formed ids of a listing, in listing order: the entries that have a non-empty
  \<^verbatim>\<open>"id"\<close>.
\<close>

fun listed_id :: "message \<Rightarrow> string list" where
  "listed_id msg =
     (case dict_get msg ''id'' of None \<Rightarrow> [] | Some eid \<Rightarrow> if eid = [] then [] else [eid])"

definition listed_ids :: "message list \<Rightarrow> string list" where
  "listed_ids msgs = concat (map listed_id msgs)"

definition well_formed :: "message \<Rightarrow> bool" where
  "well_formed msg = (listed_id msg \<noteq> [])"

text \<open>
  Readings of a trace: the classification calls that returned, with their requests; the
  requests of all classification calls; the ids fetched; the exceptions raised by the
  calls made for single messages; the ids whose processing was logged as an error; the
  messages that the fetches returned; the collaborator calls alone.
\<close>

fun llm_answer :: "'f event \<Rightarrow> (llm_request \<times> 'f EmailClassification) list" where
  "llm_answer (CallLlmRun req (Inr c)) = [(req, c)]"
| "llm_answer _ = []"

definition llm_answers :: "'f event list \<Rightarrow> (llm_request \<times> 'f EmailClassification) list" where
  "llm_answers tr = concat (map llm_answer tr)"

fun llm_request_of :: "'f event \<Rightarrow> llm_request list" where
  "llm_request_of (CallLlmRun req r) = [req]"
| "llm_request_of _ = []"

definition llm_requests :: "'f event list \<Rightarrow> llm_request list" where
  "llm_requests tr = concat (map llm_request_of tr)"

fun fetched_id :: "'f event \<Rightarrow> string list" where
  "fetched_id (CallGetMessage eid r) = [eid]"
| "fetched_id _ = []"

definition fetched_ids :: "'f event list \<Rightarrow> string list" where
  "fetched_ids tr = concat (map fetched_id tr)"

fun raised_by :: "'f event \<Rightarrow> exn list" where
  "raised_by (CallGetMessage eid (Inl e)) = [e]"
| "raised_by (CallLlmRun req (Inl e)) = [e]"
| "raised_by _ = []"

definition raised :: "'f event list \<Rightarrow> exn list" where
  "raised tr = concat (map raised_by tr)"

fun error_id :: "'f event \<Rightarrow> string list" where
  "error_id (LogErrorProcessing eid e) = [eid]"
| "error_id _ = []"

definition error_ids :: "'f event list \<Rightarrow> string list" where
  "error_ids tr = concat (map error_id tr)"

fun fetch_answer :: "'f event \<Rightarrow> email_result list" where
  "fetch_answer (CallGetMessage eid (Inr er)) = [er]"
| "fetch_answer _ = []"

definition fetch_answers :: "'f event list \<Rightarrow> email_result list" where
  "fetch_answers tr = concat (map fetch_answer tr)"

fun is_call :: "'f event \<Rightarrow> bool" where
  "is_call (CallListMessages n ls r) = True"
| "is_call (CallGetMessage eid r) = True"
| "is_call (CallLlmRun req r) = True"
| "is_call _ = False"

definition calls :: "'f event list \<Rightarrow> 'f event list" where
  "calls tr = filter is_call tr"

text \<open>A trace with the positions of the \<^verbatim>\<open>Processing email i/n\<close> lines blanked.\<close>

fun unnumbered :: "'f event \<Rightarrow> 'f event" where
  "unnumbered (LogProcessing i n eid) = LogProcessing 0 0 eid"
| "unnumbered ev = ev"

text \<open>
  The calls made for single messages are sequential when every classification call
  directly follows the fetch that returned its message, and every fetch that returned is
  directly followed by its classification call.
\<close>

fun sequential :: "'f event list \<Rightarrow> bool" where
  "sequential [] = True"
| "sequential (CallGetMessage eid (Inl e) # tr) = sequential tr"
| "sequential (CallGetMessage eid (Inr er) # CallLlmRun req r # tr) = sequential tr"
| "sequential (ev # tr) = False"

text \<open>What the loop body reads from a fetched message, and what it builds from it.\<close>

definition fetched_subject :: "email_result \<Rightarrow> string" where
  "fetched_subject er = dict_get_default er ''subject'' ''(no subject)''"

definition fetched_from :: "email_result \<Rightarrow> string" where
  "fetched_from er = dict_get_default er ''from'' ''unknown''"

definition fetched_snippet :: "email_result \<Rightarrow> string" where
  "fetched_snippet er = dict_get_default er ''snippet'' []"

definition fetched_request :: "email_result \<Rightarrow> llm_request" where
  "fetched_request er =
     classification_request (fetched_from er) (fetched_subject er) (fetched_snippet er)"

definition recorded_info ::
  "string \<Rightarrow> email_result \<Rightarrow> 'f EmailClassification \<Rightarrow> 'f EmailInfo" where
  "recorded_info eid er c =
     \<lparr>email_id = eid, subject = fetched_subject er, from_address = fetched_from er,
      snippet = fetched_snippet er, classification = Some c\<rparr>"

definition request_for :: "'f EmailInfo \<Rightarrow> llm_request" where
  "request_for email =
     classification_request (from_address email) (subject email) (snippet email)"

definition spam_of :: "'f EmailInfo \<Rightarrow> bool" where
  "spam_of email = (case classification email of None \<Rightarrow> False | Some c \<Rightarrow> is_spam c)"

text \<open>
  The shape of what the loop adds to the trace while it visits the well-formed ids
  \<open>ids\<close> and appends the records \<open>new\<close>: per id, either the fetch raises, or the
  classification raises, or the record is appended.
\<close>

inductive loop_trace :: "string list \<Rightarrow> 'f event list \<Rightarrow> 'f EmailInfo list \<Rightarrow> bool" where
  finished: "loop_trace [] [] []"
| fetch_raised:
    "loop_trace ids tr new \<Longrightarrow> is_Exception e \<Longrightarrow>
     loop_trace (eid # ids)
       (LogProcessing i n eid # CallGetMessage eid (Inl e) # LogErrorProcessing eid e # tr) new"
| llm_raised:
    "loop_trace ids tr new \<Longrightarrow> is_Exception e \<Longrightarrow>
     loop_trace (eid # ids)
       (LogProcessing i n eid # CallGetMessage eid (Inr er)
          # LogClassifying (take 50 (fetched_subject er))
          # CallLlmRun (fetched_request er) (Inl e) # LogErrorProcessing eid e # tr) new"
| recorded:
    "loop_trace ids tr new \<Longrightarrow>
     loop_trace (eid # ids)
       (LogProcessing i n eid # CallGetMessage eid (Inr er)
          # LogClassifying (take 50 (fetched_subject er))
          # CallLlmRun (fetched_request er) (Inr c)
          # LogClassified (is_spam c) (confidence c) # tr)
       (recorded_info eid er c # new)"

subsection \<open>A sample application\<close>

text \<open>
  Floats as unevaluated expressions, a mail server whose listing answer is a parameter,
  whose fetch fails for \<open>m2\<close> and returns all three fields for \<open>m1\<close> only, and a
  model that answers by the number of calls it has seen: spam, then not spam, then it
  raises.
\<close>

datatype sfloat = Lit rat | TrueDiv int int | Mul sfloat int | Round sfloat int

definition demo_spam :: "sfloat EmailClassification" where
  "demo_spam =
     \<lparr>is_spam = True, confidence = Lit (9 / 10), spam_type = \<lparr>category = ''scam''\<rparr>,
      reasoning = ''prize bait'', recommended_action = ''delete''\<rparr>"

definition demo_ham :: "sfloat EmailClassification" where
  "demo_ham =
     \<lparr>is_spam = False, confidence = Lit (19 / 20),
      spam_type = \<lparr>category = ''legitimate''\<rparr>,
      reasoning = ''nothing suspicious'', recommended_action = ''keep''\<rparr>"

definition demo_messages :: "message list" where
  "demo_messages =
     [[(''id'', ''m1'')], [], [(''id'', ''m2'')], [(''id'', [])], [(''id'', ''m3'')],
      [(''id'', ''m4'')]]"

definition demo_gmail :: "(exn + list_result) \<Rightarrow> nat gmail_server" where
  "demo_gmail listing =
     \<lparr>gmail_list_messages = (\<lambda>n labels w. (listing, w)),
      gmail_get_message = (\<lambda>mid w.
        if mid = ''m2'' then (Inl (Exception ''fetch failed''), w)
        else if mid = ''m1''
        then (Inr [(''subject'', ''You won''), (''from'', ''promo@example.com''),
                   (''snippet'', ''Claim your prize'')], w)
        else (Inr [], w))\<rparr>"

definition demo_llm :: "llm_request \<Rightarrow> nat \<Rightarrow> (exn + sfloat EmailClassification) \<times> nat" where
  "demo_llm req w =
     (if w = 0 then Inr demo_spam
      else if w = 1 then Inr demo_ham
      else Inl (Exception ''model unavailable''), Suc w)"

definition demo_app :: "(exn + list_result) \<Rightarrow> (nat, sfloat) app" where
  "demo_app listing =
     \<lparr>mcp_servers = [(''gmail'', demo_gmail listing)],
      llm_run = demo_llm,
      float_truediv = TrueDiv, float_mul = Mul, float_round = Round\<rparr>"

definition demo_app_no_gmail :: "(nat, sfloat) app" where
  "demo_app_no_gmail =
     \<lparr>mcp_servers = [],
      llm_run = demo_llm,
      float_truediv = TrueDiv, float_mul = Mul, float_round = Round\<rparr>"

text \<open>
  The sample listing and the summary expected for it: \<open>m1\<close> is spam, the entry without
  an id and the entry with an empty id are passed over, the fetch of \<open>m2\<close> raises, \<open>m3\<close>
  has none of the three fields and is not spam, the classification of \<open>m4\<close> raises.
\<close>

definition demo_listing :: "exn + list_result" where
  "demo_listing = Inr [(''messages'', demo_messages)]"

definition demo_summary :: "sfloat pyval dict" where
  "demo_summary =
     [(''total_processed'', PInt 2),
      (''spam_count'', PInt 1),
      (''not_spam_count'', PInt 1),
      (''spam_percentage'', PFloat (Round (Mul (TrueDiv 1 2) 100) 1)),
      (''emails'',
         PList
           [PDict [(''email_id'', PStr ''m1''), (''subject'', PStr ''You won''),
                   (''from'', PStr ''promo@example.com''), (''is_spam'', PBool True),
                   (''confidence'', PFloat (Round (Lit (9 / 10)) 2)),
                   (''spam_type'', PStr ''scam''), (''reasoning'', PStr ''prize bait''),
                   (''recommended_action'', PStr ''delete'')],
            PDict [(''email_id'', PStr ''m3''), (''subject'', PStr ''(no subject)''),
                   (''from'', PStr ''unknown''), (''is_spam'', PBool False),
                   (''confidence'', PFloat (Round (Lit (19 / 20)) 2)),
                   (''spam_type'', PStr ''legitimate''),
                   (''reasoning'', PStr ''nothing suspicious''),
                   (''recommended_action'', PStr ''keep'')]])]"

section \<open>Properties\<close>

subsection \<open>One pass of the loop body\<close>

lemma try_body_fetch_raises:
  assumes "gmail_get_message g eid (world st) = (Inl e, w)"
  shows "try_body ap g eid (emails, sc, nsc) st =
           (Inl e, \<lparr>world = w, trace = trace st @ [CallGetMessage eid (Inl e)]\<rparr>)"
  using assms by (simp add: try_body_def call_get_message_def)

lemma try_body_llm_raises:
  assumes "gmail_get_message g eid (world st) = (Inr er, w1)"
    and "llm_run ap (fetched_request er) w1 = (Inl e, w2)"
  shows "try_body ap g eid (emails, sc, nsc) st =
           (Inl e, \<lparr>world = w2, trace = trace st @
              [CallGetMessage eid (Inr er), LogClassifying (take 50 (fetched_subject er)),
               CallLlmRun (fetched_request er) (Inl e)]\<rparr>)"
  using assms
  by (simp add: try_body_def call_get_message_def call_llm_run_def log_def Let_def
      fetched_request_def fetched_subject_def fetched_from_def fetched_snippet_def)

lemma try_body_records:
  assumes "gmail_get_message g eid (world st) = (Inr er, w1)"
    and "llm_run ap (fetched_request er) w1 = (Inr c, w2)"
  shows "try_body ap g eid (emails, sc, nsc) st =
           (Inr (emails @ [recorded_info eid er c],
                 (if is_spam c then sc + 1 else sc),
                 (if is_spam c then nsc else nsc + 1)),
            \<lparr>world = w2, trace = trace st @
              [CallGetMessage eid (Inr er), LogClassifying (take 50 (fetched_subject er)),
               CallLlmRun (fetched_request er) (Inr c),
               LogClassified (is_spam c) (confidence c)]\<rparr>)"
  using assms
  by (simp add: try_body_def call_get_message_def call_llm_run_def log_def Let_def
      fetched_request_def fetched_subject_def fetched_from_def fetched_snippet_def
      recorded_info_def)

lemma try_body_cases:
  fixes w0 :: 'w and ap :: "('w, 'f) app"
  obtains
    (fetch_raises) e w where
      "gmail_get_message g eid w0 = (Inl e, w)"
  | (llm_raises) er w1 e w2 where
      "gmail_get_message g eid w0 = (Inr er, w1)"
      "llm_run ap (fetched_request er) w1 = (Inl e, w2)"
  | (records) er w1 c w2 where
      "gmail_get_message g eid w0 = (Inr er, w1)"
      "llm_run ap (fetched_request er) w1 = (Inr c, w2)"
proof (cases "gmail_get_message g eid w0")
  case (Pair r w)
  show ?thesis
  proof (cases r)
    case (Inl e)
    with Pair show ?thesis by (auto intro: fetch_raises)
  next
    case (Inr er)
    show ?thesis
    proof (cases "llm_run ap (fetched_request er) w")
      case (Pair r2 w2)
      with Inr \<open>gmail_get_message g eid w0 = (r, w)\<close> show ?thesis
        by (cases r2) (auto intro: llm_raises records)
    qed
  qed
qed

subsection \<open>The loop\<close>

lemma process_messages_skip:
  "listed_id msg = [] \<Longrightarrow>
   process_messages ap g idx n (msg # rest) acc st =
   process_messages ap g (idx + 1) n rest acc st"
  by (simp split: option.splits if_splits)

lemma listed_id_eq: "listed_id msg = [eid] \<Longrightarrow> dict_get msg ''id'' = Some eid \<and> eid \<noteq> []"
  by (simp split: option.splits if_splits)

lemma listed_id_cases:
  obtains (malformed) "listed_id msg = []" | (wf) eid where "listed_id msg = [eid]"
  by (cases "listed_id msg") (auto split: option.splits if_splits)

lemma process_messages_Inr:
  "process_messages ap g idx n msgs (emails, sc, nsc) st = (Inr (emails', sc', nsc'), st') \<Longrightarrow>
   \<exists>new tr. emails' = emails @ new \<and> trace st' = trace st @ tr \<and>
     loop_trace (listed_ids msgs) tr new \<and>
     sc' = sc + length (filter spam_of new) \<and>
     nsc' = nsc + length (filter (\<lambda>email. \<not> spam_of email) new)"
proof (induction msgs arbitrary: idx emails sc nsc st)
  case Nil
  then show ?case by (auto simp: listed_ids_def intro: loop_trace.finished)
next
  case (Cons msg rest)
  show ?case
  proof (cases msg rule: listed_id_cases)
    case malformed
    with Cons.prems have "process_messages ap g (idx + 1) n rest (emails, sc, nsc) st
        = (Inr (emails', sc', nsc'), st')"
      by (simp only: process_messages_skip)
    from Cons.IH[OF this] malformed show ?thesis by (simp add: listed_ids_def)
  next
    case (wf eid)
    then have id: "dict_get msg ''id'' = Some eid" "eid \<noteq> []"
      using listed_id_eq by blast+
    have ids: "listed_ids (msg # rest) = eid # listed_ids rest"
      using wf by (simp add: listed_ids_def)
    let ?st0 = "log (LogProcessing idx n eid) st"
    have w0: "world ?st0 = world st" and t0: "trace ?st0 = trace st @ [LogProcessing idx n eid]"
      by (simp_all add: log_def)
    show ?thesis
    proof (cases rule: try_body_cases[where g=g and eid=eid and ?w0.0="world st" and ap=ap])
      case (fetch_raises e w)
      note tb = try_body_fetch_raises[of g eid ?st0 e w ap emails sc nsc, unfolded w0 t0, OF fetch_raises]
      show ?thesis
      proof (cases "is_Exception e")
        case True
        from Cons.prems id tb True
        have "process_messages ap g (idx + 1) n rest (emails, sc, nsc)
           (log (LogErrorProcessing eid e) \<lparr>world = w, trace = (trace st @ [LogProcessing idx n eid]) @ [CallGetMessage eid (Inl e)]\<rparr>)
            = (Inr (emails', sc', nsc'), st')"
          by simp
        from Cons.IH[OF this] obtain new tr where
          "emails' = emails @ new"
          "trace st' = trace st @ LogProcessing idx n eid # CallGetMessage eid (Inl e) # LogErrorProcessing eid e # tr"
          "loop_trace (listed_ids rest) tr new"
          "sc' = sc + length (filter spam_of new)"
          "nsc' = nsc + length (filter (\<lambda>email. \<not> spam_of email) new)"
          by (auto simp: log_def)
        with True ids show ?thesis
          by (auto intro: loop_trace.fetch_raised)
      next
        case False
        with Cons.prems id tb show ?thesis by simp
      qed
    next
      case (llm_raises er w1 e w2)
      note tb = try_body_llm_raises[of g eid ?st0 er w1 ap e w2 emails sc nsc, unfolded w0 t0, OF llm_raises]
      show ?thesis
      proof (cases "is_Exception e")
        case True
        from Cons.prems id tb True
        have "process_messages ap g (idx + 1) n rest (emails, sc, nsc)
           (log (LogErrorProcessing eid e) \<lparr>world = w2, trace = (trace st @ [LogProcessing idx n eid]) @
              [CallGetMessage eid (Inr er), LogClassifying (take 50 (fetched_subject er)),
               CallLlmRun (fetched_request er) (Inl e)]\<rparr>)
            = (Inr (emails', sc', nsc'), st')"
          by simp
        from Cons.IH[OF this] obtain new tr where
          "emails' = emails @ new"
          "trace st' = trace st @ LogProcessing idx n eid # CallGetMessage eid (Inr er)
              # LogClassifying (take 50 (fetched_subject er))
              # CallLlmRun (fetched_request er) (Inl e) # LogErrorProcessing eid e # tr"
          "loop_trace (listed_ids rest) tr new"
          "sc' = sc + length (filter spam_of new)"
          "nsc' = nsc + length (filter (\<lambda>email. \<not> spam_of email) new)"
          by (auto simp: log_def)
        with True ids show ?thesis
          by (auto intro: loop_trace.llm_raised)
      next
        case False
        with Cons.prems id tb show ?thesis by simp
      qed
    next
      case (records er w1 c w2)
      note tb = try_body_records[of g eid ?st0 er w1 ap c w2 emails sc nsc, unfolded w0 t0, OF records]
      from Cons.prems id tb
      have "process_messages ap g (idx + 1) n rest
              (emails @ [recorded_info eid er c],
                 (if is_spam c then sc + 1 else sc),
                 (if is_spam c then nsc else nsc + 1))
              \<lparr>world = w2, trace = (trace st @ [LogProcessing idx n eid]) @
              [CallGetMessage eid (Inr er), LogClassifying (take 50 (fetched_subject er)),
               CallLlmRun (fetched_request er) (Inr c),
               LogClassified (is_spam c) (confidence c)]\<rparr>
            = (Inr (emails', sc', nsc'), st')"
        by simp
      from Cons.IH[OF this] obtain new tr where
          "emails' = emails @ recorded_info eid er c # new"
          "trace st' = trace st @ LogProcessing idx n eid # CallGetMessage eid (Inr er)
              # LogClassifying (take 50 (fetched_subject er))
              # CallLlmRun (fetched_request er) (Inr c) # LogClassified (is_spam c) (confidence c) # tr"
          "loop_trace (listed_ids rest) tr new"
          "(if is_spam c then sc + 1 else sc) + length (filter spam_of new) = sc'"
          "(if is_spam c then nsc else nsc + 1) + length (filter (\<lambda>email. \<not> spam_of email) new) = nsc'"
        by auto
      moreover have "spam_of (recorded_info eid er c) = is_spam c"
        by (simp add: spam_of_def recorded_info_def)
      moreover from \<open>loop_trace (listed_ids rest) tr new\<close>
      have "loop_trace (listed_ids (msg # rest))
              (LogProcessing idx n eid # CallGetMessage eid (Inr er)
                # LogClassifying (take 50 (fetched_subject er))
                # CallLlmRun (fetched_request er) (Inr c)
                # LogClassified (is_spam c) (confidence c) # tr)
              (recorded_info eid er c # new)"
        unfolding ids by (rule loop_trace.recorded)
      ultimately show ?thesis
        by (intro exI[of _ "recorded_info eid er c # new"] exI conjI) auto
    qed
  qed
qed

lemma process_messages_Inl:
  "process_messages ap g idx n msgs acc st = (Inl e, st') \<Longrightarrow>
   \<not> is_Exception e \<and> e \<in> set (raised (trace st'))"
proof (induction msgs arbitrary: idx acc st)
  case Nil
  then show ?case by simp
next
  case (Cons msg rest)
  obtain emails sc nsc where acc: "acc = (emails, sc, nsc)"
    by (cases acc) auto
  show ?case
  proof (cases msg rule: listed_id_cases)
    case malformed
    with Cons.prems have "process_messages ap g (idx + 1) n rest acc st = (Inl e, st')"
      by (simp only: process_messages_skip)
    from Cons.IH[OF this] show ?thesis .
  next
    case (wf eid)
    then have id: "dict_get msg ''id'' = Some eid" "eid \<noteq> []"
      using listed_id_eq by blast+
    let ?st0 = "log (LogProcessing idx n eid) st"
    have w0: "world ?st0 = world st"
      by (simp add: log_def)
    show ?thesis
    proof (cases rule: try_body_cases[where g=g and eid=eid and ?w0.0="world st" and ap=ap])
      case (fetch_raises e' w)
      note tb = try_body_fetch_raises[of g eid ?st0 e' w ap emails sc nsc, unfolded w0, OF fetch_raises]
      show ?thesis
      proof (cases "is_Exception e'")
        case True
        with Cons.prems id tb acc obtain st1 where
          "process_messages ap g (idx + 1) n rest acc st1 = (Inl e, st')"
          by simp
        from Cons.IH[OF this] show ?thesis .
      next
        case False
        with Cons.prems id tb acc show ?thesis by (auto simp: raised_def)
      qed
    next
      case (llm_raises er w1 e' w2)
      note tb = try_body_llm_raises[of g eid ?st0 er w1 ap e' w2 emails sc nsc, unfolded w0, OF llm_raises]
      show ?thesis
      proof (cases "is_Exception e'")
        case True
        with Cons.prems id tb acc obtain st1 where
          "process_messages ap g (idx + 1) n rest acc st1 = (Inl e, st')"
          by simp
        from Cons.IH[OF this] show ?thesis .
      next
        case False
        with Cons.prems id tb acc show ?thesis by (auto simp: raised_def)
      qed
    next
      case (records er w1 c w2)
      note tb = try_body_records[of g eid ?st0 er w1 ap c w2 emails sc nsc, unfolded w0, OF records]
      with Cons.prems id acc obtain acc1 st1 where
        "process_messages ap g (idx + 1) n rest acc1 st1 = (Inl e, st')"
        by simp
      from Cons.IH[OF this] show ?thesis .
    qed
  qed
qed

subsection \<open>What the shape of the loop's trace gives\<close>

lemmas reading_defs =
  llm_answers_def llm_requests_def fetched_ids_def raised_def error_ids_def
  fetch_answers_def calls_def

lemma loop_trace_fetched_ids: "loop_trace ids tr new \<Longrightarrow> fetched_ids tr = ids"
  by (induction rule: loop_trace.induct) (simp_all add: fetched_ids_def)

lemma loop_trace_llm_answers:
  "loop_trace ids tr new \<Longrightarrow>
   llm_answers tr = map (\<lambda>email. (request_for email, the (classification email))) new"
  by (induction rule: loop_trace.induct)
    (simp_all add: llm_answers_def request_for_def recorded_info_def fetched_request_def)

lemma loop_trace_llm_requests:
  "loop_trace ids tr new \<Longrightarrow> llm_requests tr = map fetched_request (fetch_answers tr)"
  by (induction rule: loop_trace.induct) (simp_all add: llm_requests_def fetch_answers_def)

lemma loop_trace_classified:
  "loop_trace ids tr new \<Longrightarrow> \<forall>email \<in> set new. classification email \<noteq> None"
  by (induction rule: loop_trace.induct) (auto simp: recorded_info_def)

lemma loop_trace_lengths:
  "loop_trace ids tr new \<Longrightarrow> length new + length (error_ids tr) = length ids"
  by (induction rule: loop_trace.induct) (simp_all add: error_ids_def)

lemma loop_trace_raised_logged:
  "loop_trace ids tr new \<Longrightarrow> length (raised tr) = length (error_ids tr)"
  by (induction rule: loop_trace.induct) (simp_all add: error_ids_def raised_def)

lemma loop_trace_raised_Exception:
  "loop_trace ids tr new \<Longrightarrow> \<forall>e \<in> set (raised tr). is_Exception e"
  by (induction rule: loop_trace.induct) (simp_all add: raised_def)

lemma loop_trace_subseq:
  "loop_trace ids tr new \<Longrightarrow> subseq (map email_id new) ids"
  by (induction rule: loop_trace.induct) (auto simp: recorded_info_def)

lemma loop_trace_id_sets:
  "loop_trace ids tr new \<Longrightarrow>
   set (error_ids tr) \<subseteq> set ids \<and> set (map email_id new) \<subseteq> set ids"
  by (induction rule: loop_trace.induct) (auto simp: error_ids_def recorded_info_def)

lemma loop_trace_disjoint:
  "loop_trace ids tr new \<Longrightarrow> distinct ids \<Longrightarrow>
   set (error_ids tr) \<inter> set (map email_id new) = {}"
proof (induction rule: loop_trace.induct)
  case finished
  then show ?case by (simp add: error_ids_def)
next
  case (fetch_raised ids tr new e eid i n)
  then show ?case using loop_trace_id_sets[of ids tr new]
    by (auto simp: error_ids_def)
next
  case (llm_raised ids tr new e eid i n er)
  then show ?case using loop_trace_id_sets[of ids tr new]
    by (auto simp: error_ids_def)
next
  case (recorded ids tr new eid i n er c)
  then show ?case using loop_trace_id_sets[of ids tr new]
    by (auto simp: error_ids_def recorded_info_def)
qed

lemma loop_trace_sequential: "loop_trace ids tr new \<Longrightarrow> sequential (calls tr)"
  by (induction rule: loop_trace.induct) (simp_all add: calls_def)

lemma loop_trace_spam_counts:
  "loop_trace ids tr new \<Longrightarrow>
   length (filter spam_of new) = length (filter (\<lambda>(req, c). is_spam c) (llm_answers tr)) \<and>
   length (filter (\<lambda>email. \<not> spam_of email) new)
     = length (filter (\<lambda>(req, c). \<not> is_spam c) (llm_answers tr))"
  by (induction rule: loop_trace.induct)
    (simp_all add: llm_answers_def spam_of_def recorded_info_def)

subsection \<open>The summary and the workflow\<close>

lemma spam_percentage_of_Inr:
  "spam_percentage_of ap sc emails =
     Inr (if 0 < length emails
          then PFloat (float_round ap
                         (float_mul ap (float_truediv ap (int sc) (int (length emails))) 100) 1)
          else PInt 0)"
  by (simp add: spam_percentage_of_def py_truediv_def)

lemma prepare_results_Inr:
  "prepare_results ap emails sc nsc =
     Inr [(''total_processed'', PInt (int (length emails))),
          (''spam_count'', PInt (int sc)),
          (''not_spam_count'', PInt (int nsc)),
          (''spam_percentage'',
             if 0 < length emails
             then PFloat (float_round ap
                            (float_mul ap (float_truediv ap (int sc) (int (length emails))) 100) 1)
             else PInt 0),
          (''emails'', PList (map (\<lambda>email. PDict (email_projection ap email)) emails))]"
  by (simp add: prepare_results_def spam_percentage_of_Inr)

lemma workflow_no_gmail:
  assumes "dict_get (mcp_servers ap) ''gmail'' = None"
  shows "classify_spam_workflow ap max_emails label w =
           (Inl (ValueError ''Gmail MCP server not configured''),
            \<lparr>world = w, trace = [LogStarting max_emails label]\<rparr>)"
  using assms by (simp add: classify_spam_workflow_def log_def)

lemma workflow_listing_raises:
  assumes "dict_get (mcp_servers ap) ''gmail'' = Some g"
    and "gmail_list_messages g max_emails [label] w = (Inl e, w1)"
  shows "classify_spam_workflow ap max_emails label w =
           (Inl e,
            \<lparr>world = w1,
             trace = [LogStarting max_emails label, LogFetching label,
                      CallListMessages max_emails [label] (Inl e)]
                     @ (if is_Exception e then [LogErrorListing e] else [])\<rparr>)"
  using assms by (simp add: classify_spam_workflow_def log_def call_list_messages_def)

lemma workflow_empty_listing:
  assumes "dict_get (mcp_servers ap) ''gmail'' = Some g"
    and "gmail_list_messages g max_emails [label] w = (Inr lr, w1)"
    and "dict_get_default lr ''messages'' [] = []"
  shows "classify_spam_workflow ap max_emails label w =
           (Inr [(''total_processed'', PInt 0), (''spam_count'', PInt 0),
                 (''not_spam_count'', PInt 0), (''emails'', PList [])],
            \<lparr>world = w1,
             trace = [LogStarting max_emails label, LogFetching label,
                      CallListMessages max_emails [label] (Inr lr), LogNoEmails]\<rparr>)"
  using assms by (simp add: classify_spam_workflow_def log_def call_list_messages_def)

lemma workflow_loop:
  assumes "dict_get (mcp_servers ap) ''gmail'' = Some g"
    and "gmail_list_messages g max_emails [label] w = (Inr lr, w1)"
    and "dict_get_default lr ''messages'' [] = msgs"
    and "msgs \<noteq> []"
  shows "classify_spam_workflow ap max_emails label w =
           (case process_messages ap g 1 (length msgs) msgs ([], 0, 0)
                   \<lparr>world = w1,
                    trace = [LogStarting max_emails label, LogFetching label,
                             CallListMessages max_emails [label] (Inr lr),
                             LogFound (length msgs)]\<rparr> of
              (Inl e, st2) \<Rightarrow> (Inl e, st2)
            | (Inr (emails, sc, nsc), st2) \<Rightarrow>
                (case prepare_results ap emails sc nsc of
                   Inl e \<Rightarrow> (Inl e, st2)
                 | Inr results \<Rightarrow> (Inr results, st2)))"
  using assms
  by (simp add: classify_spam_workflow_def log_def call_list_messages_def Let_def)

text \<open>
  A run that returns a summary either returned it right after an empty listing, or went
  through the loop and built it from the records of the loop.
\<close>

lemma workflow_Inr_cases:
  fixes ap :: "('w, 'f) app"
  assumes run: "classify_spam_workflow ap max_emails label w = (Inr results, st')"
  obtains
    (early) g lr w1 where
      "dict_get (mcp_servers ap) ''gmail'' = Some g"
      "gmail_list_messages g max_emails [label] w = (Inr lr, w1)"
      "dict_get_default lr ''messages'' [] = []"
      "results = [(''total_processed'', PInt 0), (''spam_count'', PInt 0),
                  (''not_spam_count'', PInt 0), (''emails'', PList [])]"
      "st' = \<lparr>world = w1,
              trace = [LogStarting max_emails label, LogFetching label,
                       CallListMessages max_emails [label] (Inr lr), LogNoEmails]\<rparr>"
  | (looped) g lr w1 emails tr where
      "dict_get (mcp_servers ap) ''gmail'' = Some g"
      "gmail_list_messages g max_emails [label] w = (Inr lr, w1)"
      "dict_get_default lr ''messages'' [] \<noteq> []"
      "trace st' = [LogStarting max_emails label, LogFetching label,
                    CallListMessages max_emails [label] (Inr lr),
                    LogFound (length (dict_get_default lr ''messages'' []))] @ tr"
      "loop_trace (listed_ids (dict_get_default lr ''messages'' [])) tr emails"
      "prepare_results ap emails (length (filter spam_of emails))
         (length (filter (\<lambda>email. \<not> spam_of email) emails)) = Inr results"
proof (cases "dict_get (mcp_servers ap) ''gmail''")
  case None
  from workflow_no_gmail[OF this] run show ?thesis by simp
next
  case (Some g)
  obtain r w1 where l: "gmail_list_messages g max_emails [label] w = (r, w1)"
    by (cases "gmail_list_messages g max_emails [label] w") auto
  show ?thesis
  proof (cases r)
    case (Inl e)
    from workflow_listing_raises[OF Some l[unfolded Inl]] run show ?thesis by simp
  next
    case (Inr lr)
    note l = l[unfolded Inr]
    show ?thesis
    proof (cases "dict_get_default lr ''messages'' [] = []")
      case True
      from workflow_empty_listing[OF Some l True] run show ?thesis
        by (intro early[OF Some l True]) simp_all
    next
      case False
      let ?msgs = "dict_get_default lr ''messages'' []"
      let ?st1 = "\<lparr>world = w1,
                    trace = [LogStarting max_emails label, LogFetching label,
                             CallListMessages max_emails [label] (Inr lr),
                             LogFound (length ?msgs)]\<rparr> :: ('w, 'f) run_state"
      obtain r2 st2 where p: "process_messages ap g 1 (length ?msgs) ?msgs ([], 0, 0) ?st1 = (r2, st2)"
        by (cases "process_messages ap g 1 (length ?msgs) ?msgs ([], 0, 0) ?st1") auto
      note wf = workflow_loop[OF Some l refl False, unfolded p]
      show ?thesis
      proof (cases r2)
        case (Inl e)
        with wf run show ?thesis by simp
      next
        case (Inr acc)
        obtain emails sc nsc where acc: "acc = (emails, sc, nsc)" by (cases acc) auto
        from wf run Inr acc have res: "prepare_results ap emails sc nsc = Inr results" and st: "st2 = st'"
          by (simp_all add: prepare_results_Inr)
        from process_messages_Inr[OF p[unfolded Inr acc]] obtain tr where
          "trace st2 = trace ?st1 @ tr" "loop_trace (listed_ids ?msgs) tr emails"
          "sc = length (filter spam_of emails)"
          "nsc = length (filter (\<lambda>email. \<not> spam_of email) emails)"
          by auto
        with res st show ?thesis
          by (intro looped[OF Some l False, of tr emails]) simp_all
      qed
    qed
  qed
qed

subsection \<open>The sample run\<close>

lemma demo_gmail_configured:
  "dict_get (mcp_servers (demo_app listing)) ''gmail'' = Some (demo_gmail listing)"
  by (simp add: demo_app_def dict_get_def)

lemma demo_listing_answer:
  "gmail_list_messages (demo_gmail demo_listing) 20 [''INBOX''] 0
     = (Inr [(''messages'', demo_messages)], 0)"
  by (simp add: demo_gmail_def demo_listing_def)

lemma demo_listed_ids:
  "listed_ids (dict_get_default [(''messages'', demo_messages)] ''messages'' [])
     = [''m1'', ''m2'', ''m3'', ''m4'']"
  by (simp add: dict_get_default_def demo_messages_def listed_ids_def dict_get_def)

lemma demo_run:
  "fst (classify_spam_workflow (demo_app demo_listing) 20 ''INBOX'' 0) = Inr demo_summary"
  by code_simp

lemma demo_run_pair:
  "classify_spam_workflow (demo_app demo_listing) 20 ''INBOX'' 0
     = (Inr demo_summary, snd (classify_spam_workflow (demo_app demo_listing) 20 ''INBOX'' 0))"
  using demo_run by (simp add: prod_eq_iff)

subsection \<open>Reading the returned dictionary\<close>

lemma trace_prefix_readings:
  "llm_answers ([LogStarting m l, LogFetching l, CallListMessages m [l] r, LogFound k] @ tr)
     = llm_answers tr"
  "llm_requests ([LogStarting m l, LogFetching l, CallListMessages m [l] r, LogFound k] @ tr)
     = llm_requests tr"
  "fetch_answers ([LogStarting m l, LogFetching l, CallListMessages m [l] r, LogFound k] @ tr)
     = fetch_answers tr"
  "fetched_ids ([LogStarting m l, LogFetching l, CallListMessages m [l] r, LogFound k] @ tr)
     = fetched_ids tr"
  "raised ([LogStarting m l, LogFetching l, CallListMessages m [l] r, LogFound k] @ tr)
     = raised tr"
  "error_ids ([LogStarting m l, LogFetching l, CallListMessages m [l] r, LogFound k] @ tr)
     = error_ids tr"
  "calls ([LogStarting m l, LogFetching l, CallListMessages m [l] r, LogFound k] @ tr)
     = CallListMessages m [l] r # calls tr"
  by (simp_all add: reading_defs)

lemma prepare_results_fields:
  assumes "prepare_results ap emails sc nsc = Inr results"
  shows "dict_get results ''total_processed'' = Some (PInt (int (length emails)))"
    and "dict_get results ''spam_count'' = Some (PInt (int sc))"
    and "dict_get results ''not_spam_count'' = Some (PInt (int nsc))"
    and "dict_get results ''spam_percentage'' =
           Some (if 0 < length emails
                 then PFloat (float_round ap
                        (float_mul ap (float_truediv ap (int sc) (int (length emails))) 100) 1)
                 else PInt 0)"
    and "dict_get results ''emails''
           = Some (PList (map (\<lambda>email. PDict (email_projection ap email)) emails))"
  using assms by (auto simp: prepare_results_Inr dict_get_def)

lemma classification_prompt_is_template:
  "classification_prompt frm subj snip
     = CHR 0x0A # spec_prompt_template frm subj snip @ [CHR 0x0A]"
  by (simp add: classification_prompt_def spec_prompt_template_def spec_template_lines_def)

lemma email_projection_classified:
  assumes "classification email = Some c"
    and "k \<in> set [''is_spam'', ''confidence'', ''spam_type'', ''reasoning'',
                   ''recommended_action'']"
  shows "\<exists>x. dict_get (email_projection ap email) k = Some x \<and> x \<noteq> PNone"
  using assms by (auto simp: email_projection_def dict_get_def)

lemma email_projection_id:
  "dict_get (email_projection ap email) ''email_id'' = Some (PStr (email_id email))"
  by (simp add: email_projection_def dict_get_def)

lemma process_messages_classified:
  assumes "process_messages ap g idx n msgs (emails, sc, nsc) st = (Inr (emails', sc', nsc'), st1)"
    and "\<forall>email \<in> set emails. classification email \<noteq> None"
  shows "\<forall>email \<in> set emails'. classification email \<noteq> None"
proof -
  from process_messages_Inr[OF assms(1)] obtain new tr where
    "emails' = emails @ new" "loop_trace (listed_ids msgs) tr new"
    by auto
  with assms(2) loop_trace_classified[of "listed_ids msgs" tr new] show ?thesis
    by auto
qed

lemma workflow_Inr_listing:
  fixes ap :: "('w, 'f) app"
  assumes run: "classify_spam_workflow ap max_emails label w = (Inr results, st')"
    and gm: "dict_get (mcp_servers ap) ''gmail'' = Some g"
    and ls: "gmail_list_messages g max_emails [label] w = (Inr lr, w1)"
  obtains emails tr where
    "trace st' = [LogStarting max_emails label, LogFetching label,
                  CallListMessages max_emails [label] (Inr lr),
                  LogFound (length (dict_get_default lr ''messages'' []))] @ tr
     \<or> (trace st' = [LogStarting max_emails label, LogFetching label,
                      CallListMessages max_emails [label] (Inr lr), LogNoEmails] \<and> tr = [])"
    "loop_trace (listed_ids (dict_get_default lr ''messages'' [])) tr emails"
    "dict_get results ''total_processed'' = Some (PInt (int (length emails)))"
    "dict_get results ''spam_count'' = Some (PInt (int (length (filter spam_of emails))))"
    "dict_get results ''not_spam_count''
       = Some (PInt (int (length (filter (\<lambda>email. \<not> spam_of email) emails))))"
    "dict_get results ''emails''
       = Some (PList (map (\<lambda>email. PDict (email_projection ap email)) emails))"
  using run
proof (cases rule: workflow_Inr_cases)
  case (early g' lr' w1')
  with gm ls have eq: "g' = g" "lr' = lr" by simp_all
  show ?thesis
  proof (rule that[of "[]" "[]"])
    show "loop_trace (listed_ids (dict_get_default lr ''messages'' [])) [] []"
      using early(3) eq by (simp add: listed_ids_def loop_trace.finished)
  qed (use early eq in \<open>simp_all add: dict_get_def\<close>)
next
  case (looped g' lr' w1' emails tr)
  with gm ls have eq: "g' = g" "lr' = lr" by simp_all
  note f = prepare_results_fields[OF looped(6)]
  show ?thesis
    by (rule that[of tr emails]) (use looped eq f in simp_all)
qed

lemma run_trace_readings:
  assumes "tr' = [LogStarting m l, LogFetching l, CallListMessages m [l] r, LogFound k] @ tr
     \<or> (tr' = [LogStarting m l, LogFetching l, CallListMessages m [l] r, LogNoEmails] \<and> tr = [])"
  shows "llm_answers tr' = llm_answers tr"
    and "llm_requests tr' = llm_requests tr"
    and "fetch_answers tr' = fetch_answers tr"
    and "fetched_ids tr' = fetched_ids tr"
    and "raised tr' = raised tr"
    and "error_ids tr' = error_ids tr"
    and "calls tr' = CallListMessages m [l] r # calls tr"
  using assms by (auto simp: reading_defs)

lemma fetched_request_is_template:
  "fetched_request er =
     \<lparr>messages =
        [\<lparr>role = ''user'',
          content = CHR 0x0A
            # spec_prompt_template (fetched_from er) (fetched_subject er) (fetched_snippet er)
            @ [CHR 0x0A]\<rparr>],
      output_schema = EmailClassification_schema,
      temperature = 1 / 10\<rparr>"
  by (simp add: fetched_request_def classification_request_def
      classification_prompt_is_template)

lemma workflow_Inl_after_listing:
  fixes ap :: "('w, 'f) app"
  assumes run: "classify_spam_workflow ap max_emails label w = (Inl e, st')"
    and gm: "dict_get (mcp_servers ap) ''gmail'' = Some g"
    and ls: "gmail_list_messages g max_emails [label] w = (Inr lr, w1)"
  shows "\<not> is_Exception e \<and> e \<in> set (raised (trace st'))"
proof (cases "dict_get_default lr ''messages'' [] = []")
  case True
  from workflow_empty_listing[OF gm ls True] run show ?thesis by simp
next
  case False
  let ?msgs = "dict_get_default lr ''messages'' []"
  let ?st1 = "\<lparr>world = w1,
                trace = [LogStarting max_emails label, LogFetching label,
                         CallListMessages max_emails [label] (Inr lr),
                         LogFound (length ?msgs)]\<rparr> :: ('w, 'f) run_state"
  obtain r2 st2 where p: "process_messages ap g 1 (length ?msgs) ?msgs ([], 0, 0) ?st1 = (r2, st2)"
    by (cases "process_messages ap g 1 (length ?msgs) ?msgs ([], 0, 0) ?st1") auto
  note wf = workflow_loop[OF gm ls refl False, unfolded p]
  show ?thesis
  proof (cases r2)
    case (Inl e2)
    with wf run have "e2 = e" "st2 = st'" by simp_all
    with process_messages_Inl[OF p[unfolded Inl]] show ?thesis by simp
  next
    case (Inr acc)
    obtain emails sc nsc where "acc = (emails, sc, nsc)" by (cases acc) auto
    with wf run Inr show ?thesis by (simp add: prepare_results_Inr)
  qed
qed

lemma try_body_unnumbered:
  fixes st1 st2 :: "('w, 'f) run_state"
  assumes "world st1 = world st2"
    and "map unnumbered (trace st1) = map unnumbered (trace st2)"
  shows "fst (try_body ap g eid acc st1) = fst (try_body ap g eid acc st2) \<and>
         world (snd (try_body ap g eid acc st1)) = world (snd (try_body ap g eid acc st2)) \<and>
         map unnumbered (trace (snd (try_body ap g eid acc st1)))
           = map unnumbered (trace (snd (try_body ap g eid acc st2)))"
proof -
  obtain emails sc nsc where acc: "acc = (emails, sc, nsc)" by (cases acc) auto
  show ?thesis
  proof (cases rule: try_body_cases[where g=g and eid=eid and ?w0.0="world st1" and ap=ap])
    case (fetch_raises e w)
    from try_body_fetch_raises[of g eid st1, OF fetch_raises]
      try_body_fetch_raises[of g eid st2, OF fetch_raises[unfolded assms(1)]]
    show ?thesis using assms(2) by (simp add: acc)
  next
    case (llm_raises er w1 e w2)
    from try_body_llm_raises[of g eid st1, OF llm_raises]
      try_body_llm_raises[of g eid st2, OF llm_raises(1)[unfolded assms(1)] llm_raises(2)]
    show ?thesis using assms(2) by (simp add: acc)
  next
    case (records er w1 c w2)
    from try_body_records[of g eid st1, OF records]
      try_body_records[of g eid st2, OF records(1)[unfolded assms(1)] records(2)]
    show ?thesis using assms(2) by (simp add: acc)
  qed
qed

lemma process_messages_filter:
  fixes st1 st2 :: "('w, 'f) run_state"
  assumes "world st1 = world st2"
    and "map unnumbered (trace st1) = map unnumbered (trace st2)"
  shows "fst (process_messages ap g i n msgs acc st1)
           = fst (process_messages ap g j m (filter well_formed msgs) acc st2) \<and>
         world (snd (process_messages ap g i n msgs acc st1))
           = world (snd (process_messages ap g j m (filter well_formed msgs) acc st2)) \<and>
         map unnumbered (trace (snd (process_messages ap g i n msgs acc st1)))
           = map unnumbered
               (trace (snd (process_messages ap g j m (filter well_formed msgs) acc st2)))"
  using assms
proof (induction msgs arbitrary: i j acc st1 st2)
  case Nil
  then show ?case by simp
next
  case (Cons msg rest)
  show ?case
  proof (cases msg rule: listed_id_cases)
    case malformed
    then have "\<not> well_formed msg" by (simp add: well_formed_def)
    with Cons.IH[OF Cons.prems, where i = "i + 1" and j = j and acc = acc] malformed show ?thesis
      by (simp only: process_messages_skip filter.simps if_False)
  next
    case (wf eid)
    then have id: "dict_get msg ''id'' = Some eid" "eid \<noteq> []"
      using listed_id_eq by blast+
    from wf have w: "well_formed msg" by (simp add: well_formed_def)
    let ?a = "log (LogProcessing i n eid) st1"
    let ?b = "log (LogProcessing j m eid) st2"
    have ab: "world ?a = world ?b" "map unnumbered (trace ?a) = map unnumbered (trace ?b)"
      using Cons.prems by (simp_all add: log_def)
    obtain r1 s1 where t1: "try_body ap g eid acc ?a = (r1, s1)"
      by (cases "try_body ap g eid acc ?a") auto
    obtain r2 s2 where t2: "try_body ap g eid acc ?b = (r2, s2)"
      by (cases "try_body ap g eid acc ?b") auto
    from try_body_unnumbered[OF ab, where ap = ap and g = g and eid = eid and acc = acc] t1 t2
    have eq: "r1 = r2" "world s1 = world s2"
      "map unnumbered (trace s1) = map unnumbered (trace s2)"
      by simp_all
    show ?thesis
    proof (cases r1)
      case (Inr acc')
      with eq have r2: "r2 = Inr acc'" by simp
      from Cons.IH[OF eq(2,3), where i = "i + 1" and j = "j + 1" and acc = acc'] show ?thesis
        using id w t1 t2 Inr r2 by simp
    next
      case (Inl e)
      with eq have r2: "r2 = Inl e" by simp
      show ?thesis
      proof (cases "is_Exception e")
        case True
        have "world (log (LogErrorProcessing eid e) s1) = world (log (LogErrorProcessing eid e) s2)"
          "map unnumbered (trace (log (LogErrorProcessing eid e) s1))
             = map unnumbered (trace (log (LogErrorProcessing eid e) s2))"
          using eq by (simp_all add: log_def)
        from Cons.IH[OF this, where i = "i + 1" and j = "j + 1" and acc = acc] show ?thesis
          using id w t1 t2 Inl r2 True by simp
      next
        case False
        then show ?thesis using id w t1 t2 Inl r2 eq by simp
      qed
    qed
  qed
qed

section \<open>The claims\<close>

text \<open>
  C1. The claim: after a listing with zero messages the workflow returns at once the
  summary with the five fields \<open>total_processed\<close>, \<open>spam_count\<close>, \<open>not_spam_count\<close>,
  \<open>spam_percentage\<close> and \<open>emails\<close>, all zero or empty. The code returns at once, with
  no call and no record made for any message, but the dictionary it returns has four
  fields: \<open>spam_percentage\<close> is not in it. The block under \<^verbatim>\<open>__main__\<close> reads that key
  from every result, and the summary built after the loop always has it.
\<close>

theorem C1_empty_listing_summary_has_four_fields:
  "classify_spam_workflow (demo_app (Inr [(''messages'', [])])) 20 ''INBOX'' 0 =
     (Inr [(''total_processed'', PInt 0), (''spam_count'', PInt 0),
           (''not_spam_count'', PInt 0), (''emails'', PList [])],
      \<lparr>world = 0,
       trace = [LogStarting 20 ''INBOX'', LogFetching ''INBOX'',
                CallListMessages 20 [''INBOX''] (Inr [(''messages'', [])]), LogNoEmails]\<rparr>)
   \<and> fst (classify_spam_workflow (demo_app (Inr [(''messages'', [])])) 20 ''INBOX'' 0) \<noteq>
     Inr [(''total_processed'', PInt 0), (''spam_count'', PInt 0),
          (''not_spam_count'', PInt 0), (''spam_percentage'', PInt 0),
          (''emails'', PList [])]"
proof -
  have "dict_get (mcp_servers (demo_app (Inr [(''messages'', [])]))) ''gmail''
          = Some (demo_gmail (Inr [(''messages'', [])]))"
    by (simp add: demo_app_def dict_get_def)
  moreover have "gmail_list_messages (demo_gmail (Inr [(''messages'', [])])) 20 [''INBOX''] 0
          = (Inr [(''messages'', [])], 0)"
    by (simp add: demo_gmail_def)
  moreover have "dict_get_default [(''messages'', [])] ''messages'' ([] :: message list) = []"
    by (simp add: dict_get_default_def)
  ultimately show ?thesis
    by (simp add: workflow_empty_listing)
qed

text \<open>
  C3. The claim: in every returned summary \<open>spam_percentage\<close> is the rounded share of spam
  when \<open>total_processed\<close> is positive and \<open>0\<close> when it is zero. The summary built after
  the loop is so (\<open>prepare_results_Inr\<close>: the division is guarded by the emptiness test and
  never raises). The summary returned after an empty listing has \<open>total_processed = 0\<close> and
  no \<open>spam_percentage\<close> at all: reading it raises \<^verbatim>\<open>KeyError\<close>.
\<close>

theorem C3_empty_listing_summary_has_no_percentage:
  "(case fst (classify_spam_workflow (demo_app (Inr [])) 20 ''INBOX'' 0) of
      Inl e \<Rightarrow> False
    | Inr results \<Rightarrow>
        dict_get results ''total_processed'' = Some (PInt 0) \<and>
        dict_get results ''spam_percentage'' = None)"
  by (simp add: classify_spam_workflow_def demo_app_def demo_gmail_def dict_get_def
      dict_get_default_def call_list_messages_def log_def)

text \<open>
  C4. When no mail server named \<open>gmail\<close> is configured, the workflow raises
  \<^verbatim>\<open>ValueError\<close> before any call is made; when the listing call raises, the workflow
  raises the same exception, after the listing call and no other call. In both cases the
  result is an exception, not a summary.
\<close>

theorem C4_setup_or_listing_failure_aborts:
  "(dict_get (mcp_servers ap) ''gmail'' = None \<longrightarrow>
      fst (classify_spam_workflow ap max_emails label w)
        = Inl (ValueError ''Gmail MCP server not configured'') \<and>
      calls (trace (snd (classify_spam_workflow ap max_emails label w))) = []) \<and>
   (dict_get (mcp_servers ap) ''gmail'' = Some g \<and>
    gmail_list_messages g max_emails [label] w = (Inl e, w1) \<longrightarrow>
      fst (classify_spam_workflow ap max_emails label w) = Inl e \<and>
      calls (trace (snd (classify_spam_workflow ap max_emails label w)))
        = [CallListMessages max_emails [label] (Inl e)])"
  by (auto simp: workflow_no_gmail workflow_listing_raises calls_def)

theorem C4_setup_or_listing_failure_aborts_witness:
  "dict_get (mcp_servers demo_app_no_gmail) ''gmail'' = None \<and>
   fst (classify_spam_workflow demo_app_no_gmail 20 ''INBOX'' 0)
     = Inl (ValueError ''Gmail MCP server not configured'') \<and>
   dict_get (mcp_servers (demo_app (Inl (Exception ''listing failed'')))) ''gmail''
     = Some (demo_gmail (Inl (Exception ''listing failed''))) \<and>
   gmail_list_messages (demo_gmail (Inl (Exception ''listing failed''))) 20 [''INBOX''] 0
     = (Inl (Exception ''listing failed''), 0) \<and>
   fst (classify_spam_workflow (demo_app (Inl (Exception ''listing failed''))) 20 ''INBOX'' 0)
     = Inl (Exception ''listing failed'')"
proof -
  have a: "dict_get (mcp_servers demo_app_no_gmail) ''gmail'' = None"
    by (simp add: demo_app_no_gmail_def dict_get_def)
  have b: "dict_get (mcp_servers (demo_app (Inl (Exception ''listing failed'')))) ''gmail''
     = Some (demo_gmail (Inl (Exception ''listing failed'')))"
    by (simp add: demo_app_def dict_get_def)
  have c: "gmail_list_messages (demo_gmail (Inl (Exception ''listing failed''))) 20 [''INBOX''] 0
     = (Inl (Exception ''listing failed''), 0)"
    by (simp add: demo_gmail_def)
  from a b c
    C4_setup_or_listing_failure_aborts[where ap = demo_app_no_gmail and max_emails = 20
      and label = "''INBOX''" and w = 0]
    C4_setup_or_listing_failure_aborts[where ap = "demo_app (Inl (Exception ''listing failed''))"
      and g = "demo_gmail (Inl (Exception ''listing failed''))" and max_emails = 20
      and label = "''INBOX''" and w = 0 and e = "Exception ''listing failed''" and ?w1.0 = 0]
  show ?thesis by blast
qed

text \<open>
  C2. In every summary the workflow returns, \<open>spam_count + not_spam_count\<close> is
  \<open>total_processed\<close>, and \<open>total_processed\<close> is the length of \<open>emails\<close>. The three counts
  count the classification calls that returned (all of them, those that answered spam,
  those that answered not spam): an id whose fetch or classification raised is in none of
  them.
\<close>

theorem C2_counts_consistent:
  assumes "classify_spam_workflow ap max_emails label w = (Inr results, st')"
  shows "\<exists>sc nsc es.
     dict_get results ''total_processed'' = Some (PInt (int (length es))) \<and>
     dict_get results ''spam_count'' = Some (PInt (int sc)) \<and>
     dict_get results ''not_spam_count'' = Some (PInt (int nsc)) \<and>
     dict_get results ''emails'' = Some (PList es) \<and>
     sc + nsc = length es \<and>
     length es = length (llm_answers (trace st')) \<and>
     sc = length (filter (\<lambda>(req, c). is_spam c) (llm_answers (trace st'))) \<and>
     nsc = length (filter (\<lambda>(req, c). \<not> is_spam c) (llm_answers (trace st')))"
  using assms
proof (cases rule: workflow_Inr_cases)
  case (early g lr w1)
  then show ?thesis
    by (intro exI[of _ 0] exI[of _ "[]"]) (simp add: dict_get_def llm_answers_def)
next
  case (looped g lr w1 emails tr)
  let ?sc = "length (filter spam_of emails)"
  let ?nsc = "length (filter (\<lambda>email. \<not> spam_of email) emails)"
  let ?es = "map (\<lambda>email. PDict (email_projection ap email)) emails"
  note f = prepare_results_fields[OF looped(6)]
  have tr: "llm_answers (trace st') = llm_answers tr"
    by (simp only: looped(4) trace_prefix_readings)
  have "?sc + ?nsc = length emails"
    by (rule sum_length_filter_compl)
  moreover have "length emails = length (llm_answers tr)"
    by (simp add: loop_trace_llm_answers[OF looped(5)])
  ultimately show ?thesis
    using f loop_trace_spam_counts[OF looped(5)] tr
    by (intro exI[of _ ?sc] exI[of _ ?nsc] exI[of _ ?es]) simp
qed

theorem C2_counts_consistent_witness:
  "fst (classify_spam_workflow (demo_app demo_listing) 20 ''INBOX'' 0) = Inr demo_summary \<and>
   (\<exists>sc nsc es.
     dict_get demo_summary ''total_processed'' = Some (PInt (int (length es))) \<and>
     dict_get demo_summary ''spam_count'' = Some (PInt (int sc)) \<and>
     dict_get demo_summary ''not_spam_count'' = Some (PInt (int nsc)) \<and>
     dict_get demo_summary ''emails'' = Some (PList es) \<and>
     sc + nsc = length es \<and> length es = 2)"
proof -
  have "length (llm_answers (trace (snd
          (classify_spam_workflow (demo_app demo_listing) 20 ''INBOX'' 0)))) = 2"
    by code_simp
  with C2_counts_consistent[OF demo_run_pair] demo_run show ?thesis
    by auto
qed

text \<open>
  C10. The loop appends a record only after a classification has been attached to it:
  when all records collected so far carry a classification, so do all records after the
  loop. Hence in every summary the workflow returns, each entry of \<open>emails\<close> has the
  five fields \<open>is_spam\<close>, \<open>confidence\<close>, \<open>spam_type\<close>, \<open>reasoning\<close> and
  \<open>recommended_action\<close>, and none of them is \<^verbatim>\<open>None\<close>.
\<close>

theorem C10_recorded_emails_are_classified:
  "(process_messages ap g idx n msgs (emails, sc, nsc) st = (Inr (emails', sc', nsc'), st1) \<longrightarrow>
      (\<forall>email \<in> set emails. classification email \<noteq> None) \<longrightarrow>
      (\<forall>email \<in> set emails'. classification email \<noteq> None)) \<and>
   (classify_spam_workflow ap max_emails label w = (Inr results, st') \<longrightarrow>
      (\<exists>es. dict_get results ''emails'' = Some (PList es) \<and>
         (\<forall>v \<in> set es. \<exists>d. v = PDict d \<and>
            (\<forall>k \<in> set [''is_spam'', ''confidence'', ''spam_type'', ''reasoning'',
                         ''recommended_action''].
               \<exists>x. dict_get d k = Some x \<and> x \<noteq> PNone))))"
proof (intro conjI impI)
  assume "process_messages ap g idx n msgs (emails, sc, nsc) st = (Inr (emails', sc', nsc'), st1)"
    and "\<forall>email \<in> set emails. classification email \<noteq> None"
  then show "\<forall>email \<in> set emails'. classification email \<noteq> None"
    by (rule process_messages_classified)
next
  assume "classify_spam_workflow ap max_emails label w = (Inr results, st')"
  then show "\<exists>es. dict_get results ''emails'' = Some (PList es) \<and>
         (\<forall>v \<in> set es. \<exists>d. v = PDict d \<and>
            (\<forall>k \<in> set [''is_spam'', ''confidence'', ''spam_type'', ''reasoning'',
                         ''recommended_action''].
               \<exists>x. dict_get d k = Some x \<and> x \<noteq> PNone))"
  proof (cases rule: workflow_Inr_cases)
    case (early g lr w1)
    then show ?thesis by (simp add: dict_get_def)
  next
    case (looped g lr w1 recs tr)
    have "\<exists>x. dict_get (email_projection ap email) k = Some x \<and> x \<noteq> PNone"
      if "email \<in> set recs"
        and "k \<in> set [''is_spam'', ''confidence'', ''spam_type'', ''reasoning'',
                       ''recommended_action'']" for email k
    proof -
      from loop_trace_classified[OF looped(5)] that(1)
      obtain c where "classification email = Some c" by auto
      from email_projection_classified[OF this that(2)] show ?thesis .
    qed
    then have "\<forall>v \<in> set (map (\<lambda>email. PDict (email_projection ap email)) recs).
       \<exists>d. v = PDict d \<and>
            (\<forall>k \<in> set [''is_spam'', ''confidence'', ''spam_type'', ''reasoning'',
                         ''recommended_action''].
               \<exists>x. dict_get d k = Some x \<and> x \<noteq> PNone)"
      by (simp only: set_map) blast
    with prepare_results_fields(5)[OF looped(6)] show ?thesis
      by blast
  qed
qed

theorem C10_recorded_emails_are_classified_witness:
  "fst (process_messages (demo_app demo_listing) (demo_gmail demo_listing) 1 1
          [[(''id'', ''m1'')]] ([], 0, 0) \<lparr>world = 0, trace = []\<rparr>)
     = Inr ([recorded_info ''m1''
               [(''subject'', ''You won''), (''from'', ''promo@example.com''),
                (''snippet'', ''Claim your prize'')] demo_spam], 1, 0) \<and>
   classification (recorded_info ''m1''
               [(''subject'', ''You won''), (''from'', ''promo@example.com''),
                (''snippet'', ''Claim your prize'')] demo_spam) \<noteq> None \<and>
   fst (classify_spam_workflow (demo_app demo_listing) 20 ''INBOX'' 0) = Inr demo_summary \<and>
   (\<exists>es. dict_get demo_summary ''emails'' = Some (PList es) \<and> length es = 2 \<and>
         (\<forall>v \<in> set es. \<exists>d. v = PDict d \<and>
            (\<forall>k \<in> set [''is_spam'', ''confidence'', ''spam_type'', ''reasoning'',
                         ''recommended_action''].
               \<exists>x. dict_get d k = Some x \<and> x \<noteq> PNone)))"
proof -
  let ?er = "[(''subject'', ''You won''), (''from'', ''promo@example.com''),
              (''snippet'', ''Claim your prize'')]"
  let ?run = "process_messages (demo_app demo_listing) (demo_gmail demo_listing) 1 1
          [[(''id'', ''m1'')]] ([], 0, 0) \<lparr>world = 0, trace = []\<rparr>"
  have loop: "fst ?run = Inr ([recorded_info ''m1'' ?er demo_spam], 1, 0)"
    by code_simp
  then have loop_pair: "?run = (Inr ([recorded_info ''m1'' ?er demo_spam], 1, 0), snd ?run)"
    by (simp add: prod_eq_iff)
  note C10_recorded_emails_are_classified[where ap = "demo_app demo_listing"
      and g = "demo_gmail demo_listing" and idx = 1 and n = 1 and msgs = "[[(''id'', ''m1'')]]"
      and emails = "[]" and sc = 0 and nsc = 0 and st = "\<lparr>world = 0, trace = []\<rparr>"
      and emails' = "[recorded_info ''m1'' ?er demo_spam]" and sc' = 1 and nsc' = 0
      and ?st1.0 = "snd ?run" and max_emails = 20 and label = "''INBOX''" and w = 0
      and results = demo_summary
      and st' = "snd (classify_spam_workflow (demo_app demo_listing) 20 ''INBOX'' 0)"]
  with loop_pair demo_run_pair have
    a: "\<forall>email \<in> set [recorded_info ''m1'' ?er demo_spam]. classification email \<noteq> None"
    and b: "\<exists>es. dict_get demo_summary ''emails'' = Some (PList es) \<and>
         (\<forall>v \<in> set es. \<exists>d. v = PDict d \<and>
            (\<forall>k \<in> set [''is_spam'', ''confidence'', ''spam_type'', ''reasoning'',
                         ''recommended_action''].
               \<exists>x. dict_get d k = Some x \<and> x \<noteq> PNone))"
    by simp_all
  from b obtain es where es: "dict_get demo_summary ''emails'' = Some (PList es)"
     "\<forall>v \<in> set es. \<exists>d. v = PDict d \<and>
            (\<forall>k \<in> set [''is_spam'', ''confidence'', ''spam_type'', ''reasoning'',
                         ''recommended_action''].
               \<exists>x. dict_get d k = Some x \<and> x \<noteq> PNone)"
    by blast
  from es(1) have "length es = 2"
    by (auto simp: demo_summary_def dict_get_def)
  with a es loop demo_run show ?thesis
    by (intro conjI exI[of _ es]) simp_all
qed

text \<open>
  C9. In a run that returns a summary, the first collaborator call is the listing; after
  it every well-formed listed id is fetched once, in listing order; each classification
  call directly follows the fetch of its message, before the next fetch; and the ids of
  \<open>emails\<close> in the summary are a subsequence of the listed ids, in listing order.
\<close>

theorem C9_listing_order_preserved:
  fixes ap :: "('w, 'f) app"
  assumes "classify_spam_workflow ap max_emails label w = (Inr results, st')"
    and "dict_get (mcp_servers ap) ''gmail'' = Some g"
    and "gmail_list_messages g max_emails [label] w = (Inr lr, w1)"
  shows "fetched_ids (trace st') = listed_ids (dict_get_default lr ''messages'' []) \<and>
     (\<exists>cs. calls (trace st') = CallListMessages max_emails [label] (Inr lr) # cs \<and>
            sequential cs) \<and>
     (\<exists>es. dict_get results ''emails'' = Some (PList es) \<and>
        subseq (map (\<lambda>v. case v of PDict d \<Rightarrow> dict_get d ''email_id'' | _ \<Rightarrow> None) es)
               (map (\<lambda>eid. Some (PStr eid)) (listed_ids (dict_get_default lr ''messages'' []))))"
  using assms
proof (cases rule: workflow_Inr_listing)
  case (1 emails tr)
  note rd = run_trace_readings[OF 1(1)]
  let ?ids = "listed_ids (dict_get_default lr ''messages'' [])"
  have a: "fetched_ids (trace st') = ?ids"
    by (simp add: rd loop_trace_fetched_ids[OF 1(2)])
  have b: "\<exists>cs. calls (trace st') = CallListMessages max_emails [label] (Inr lr) # cs \<and>
            sequential cs"
    by (simp add: rd loop_trace_sequential[OF 1(2)])
  have eq: "map (\<lambda>v. case v of PDict d \<Rightarrow> dict_get d ''email_id'' | _ \<Rightarrow> None)
          (map (\<lambda>email. PDict (email_projection ap email)) emails)
        = map (\<lambda>eid. Some (PStr eid)) (map email_id emails)"
    by (simp add: email_projection_id)
  have sub: "subseq (map (\<lambda>eid. Some (PStr eid :: 'f pyval)) (map email_id emails))
                    (map (\<lambda>eid. Some (PStr eid)) ?ids)"
    by (rule subseq_map) (rule loop_trace_subseq[OF 1(2)])
  have c: "\<exists>es. dict_get results ''emails'' = Some (PList es) \<and>
        subseq (map (\<lambda>v. case v of PDict d \<Rightarrow> dict_get d ''email_id'' | _ \<Rightarrow> None) es)
               (map (\<lambda>eid. Some (PStr eid)) ?ids)"
  proof (intro exI conjI)
    show "dict_get results ''emails''
            = Some (PList (map (\<lambda>email. PDict (email_projection ap email)) emails))"
      by (rule 1(6))
    show "subseq
            (map (\<lambda>v. case v of PDict d \<Rightarrow> dict_get d ''email_id'' | _ \<Rightarrow> None)
               (map (\<lambda>email. PDict (email_projection ap email)) emails))
            (map (\<lambda>eid. Some (PStr eid)) ?ids)"
      unfolding eq by (rule sub)
  qed
  from a b c show ?thesis by blast
qed

theorem C9_listing_order_preserved_witness:
  "fst (classify_spam_workflow (demo_app demo_listing) 20 ''INBOX'' 0) = Inr demo_summary \<and>
   dict_get (mcp_servers (demo_app demo_listing)) ''gmail'' = Some (demo_gmail demo_listing) \<and>
   gmail_list_messages (demo_gmail demo_listing) 20 [''INBOX''] 0
     = (Inr [(''messages'', demo_messages)], 0) \<and>
   fetched_ids (trace (snd (classify_spam_workflow (demo_app demo_listing) 20 ''INBOX'' 0)))
     = [''m1'', ''m2'', ''m3'', ''m4''] \<and>
   (\<exists>es. dict_get demo_summary ''emails'' = Some (PList es) \<and>
      map (\<lambda>v. case v of PDict d \<Rightarrow> dict_get d ''email_id'' | _ \<Rightarrow> None) es
        = [Some (PStr ''m1''), Some (PStr ''m3'')] \<and>
      subseq (map (\<lambda>v. case v of PDict d \<Rightarrow> dict_get d ''email_id'' | _ \<Rightarrow> None) es)
        (map (\<lambda>eid. Some (PStr eid)) [''m1'', ''m2'', ''m3'', ''m4'']))"
proof -
  note C9_listing_order_preserved[OF demo_run_pair demo_gmail_configured demo_listing_answer,
      unfolded demo_listed_ids]
  then obtain es where
    f: "fetched_ids (trace (snd (classify_spam_workflow (demo_app demo_listing) 20 ''INBOX'' 0)))
          = [''m1'', ''m2'', ''m3'', ''m4'']"
    and es: "dict_get demo_summary ''emails'' = Some (PList es)"
    and sub: "subseq (map (\<lambda>v. case v of PDict d \<Rightarrow> dict_get d ''email_id'' | _ \<Rightarrow> None) es)
        (map (\<lambda>eid. Some (PStr eid)) [''m1'', ''m2'', ''m3'', ''m4''])"
    by blast
  from es have "map (\<lambda>v. case v of PDict d \<Rightarrow> dict_get d ''email_id'' | _ \<Rightarrow> None) es
        = [Some (PStr ''m1''), Some (PStr ''m3'')]"
    by (auto simp: demo_summary_def dict_get_def)
  with f es sub demo_run demo_gmail_configured demo_listing_answer show ?thesis
    by (intro conjI exI[of _ es]) assumption+
qed

text \<open>
  C7. In a run that returns a summary, the classification requests are, in order, one
  for each message that a fetch returned, built from the fields of that message (with the
  defaults). Each request is a conversation of one message of role \<open>user\<close> whose
  content is the template of the specification with the sender, the subject and the
  snippet put in, between one line break before and one after, as the f-string of the
  source has them; each request carries the temperature \<open>0.1\<close> and the schema of the
  classification result, field by field: \<open>is_spam\<close> a boolean, \<open>confidence\<close> a
  float between \<open>0\<close> and \<open>1\<close>, \<open>spam_type\<close> a record of one string \<open>category\<close>,
  \<open>reasoning\<close> a string and \<open>recommended_action\<close> a string. The summary has as many
  entries in \<open>emails\<close> as classification calls returned.
\<close>

theorem C7_one_templated_request_per_message:
  fixes ap :: "('w, 'f) app"
  assumes "classify_spam_workflow ap max_emails label w = (Inr results, st')"
  shows "llm_requests (trace st') = map fetched_request (fetch_answers (trace st')) \<and>
     (\<forall>er. fetched_request er =
        \<lparr>messages =
           [\<lparr>role = ''user'',
             content = CHR 0x0A
               # spec_prompt_template (fetched_from er) (fetched_subject er) (fetched_snippet er)
               @ [CHR 0x0A]\<rparr>],
         output_schema =
           [(''is_spam'', TBool),
            (''confidence'', TFloat_ge_le 0 1),
            (''spam_type'', TModel [(''category'', TStr)]),
            (''reasoning'', TStr),
            (''recommended_action'', TStr)],
         temperature = 1 / 10\<rparr>) \<and>
     (\<exists>es. dict_get results ''emails'' = Some (PList es) \<and>
           length es = length (llm_answers (trace st')))"
  using assms
proof (cases rule: workflow_Inr_cases)
  case (early g lr w1)
  then show ?thesis
    by (simp add: fetched_request_is_template EmailClassification_schema_def
        SpamType_schema_def reading_defs dict_get_def)
next
  case (looped g lr w1 emails tr)
  have rd: "llm_requests (trace st') = llm_requests tr"
    "fetch_answers (trace st') = fetch_answers tr"
    "llm_answers (trace st') = llm_answers tr"
    by (simp_all only: looped(4) trace_prefix_readings)
  have a: "llm_requests (trace st') = map fetched_request (fetch_answers (trace st'))"
    by (simp only: rd loop_trace_llm_requests[OF looped(5)])
  have "length (map (\<lambda>email. PDict (email_projection ap email)) emails)
          = length (llm_answers (trace st'))"
    by (simp add: rd loop_trace_llm_answers[OF looped(5)])
  with prepare_results_fields(5)[OF looped(6)]
  have c: "\<exists>es. dict_get results ''emails'' = Some (PList es) \<and>
           length es = length (llm_answers (trace st'))"
    by blast
  from a c show ?thesis
    by (simp only: fetched_request_is_template EmailClassification_schema_def
        SpamType_schema_def simp_thms)
qed

theorem C7_one_templated_request_per_message_witness:
  "fst (classify_spam_workflow (demo_app demo_listing) 20 ''INBOX'' 0) = Inr demo_summary \<and>
   llm_requests (trace (snd (classify_spam_workflow (demo_app demo_listing) 20 ''INBOX'' 0)))
     = map fetched_request
         [[(''subject'', ''You won''), (''from'', ''promo@example.com''),
           (''snippet'', ''Claim your prize'')], [], []] \<and>
   output_schema (fetched_request [])
     = [(''is_spam'', TBool), (''confidence'', TFloat_ge_le 0 1),
        (''spam_type'', TModel [(''category'', TStr)]), (''reasoning'', TStr),
        (''recommended_action'', TStr)] \<and>
   temperature (fetched_request []) = 1 / 10 \<and>
   content (hd (messages (fetched_request [])))
     = ''\<newline>Analyze this email and classify it as spam or not spam.\<newline>\<newline>**Email Details:**\<newline>- From: unknown\<newline>- Subject: (no subject)\<newline>- Preview: \<newline>\<newline>Consider the following factors:\<newline>1. Sender reputation and authenticity\<newline>2. Subject line characteristics (urgency, sensationalism, suspicious patterns)\<newline>3. Content quality and professionalism\<newline>4. Presence of phishing indicators\<newline>5. Marketing/promotional characteristics\<newline>\<newline>Provide a structured classification with confidence score, spam type, reasoning, and recommended action.\<newline>''"
proof -
  have fa: "fetch_answers (trace (snd
          (classify_spam_workflow (demo_app demo_listing) 20 ''INBOX'' 0)))
     = [[(''subject'', ''You won''), (''from'', ''promo@example.com''),
         (''snippet'', ''Claim your prize'')], [], []]"
    by code_simp
  note c7 = C7_one_templated_request_per_message[OF demo_run_pair]
  from c7 have a: "llm_requests (trace (snd
          (classify_spam_workflow (demo_app demo_listing) 20 ''INBOX'' 0)))
     = map fetched_request
         [[(''subject'', ''You won''), (''from'', ''promo@example.com''),
           (''snippet'', ''Claim your prize'')], [], []]"
    by (simp only: fa)
  from c7 have "fetched_request [] =
        \<lparr>messages =
           [\<lparr>role = ''user'',
             content = CHR 0x0A
               # spec_prompt_template (fetched_from []) (fetched_subject []) (fetched_snippet [])
               @ [CHR 0x0A]\<rparr>],
         output_schema =
           [(''is_spam'', TBool),
            (''confidence'', TFloat_ge_le 0 1),
            (''spam_type'', TModel [(''category'', TStr)]),
            (''reasoning'', TStr),
            (''recommended_action'', TStr)],
         temperature = 1 / 10\<rparr>"
    by blast
  note req = this
  from req have sch: "output_schema (fetched_request [])
     = [(''is_spam'', TBool), (''confidence'', TFloat_ge_le 0 1),
        (''spam_type'', TModel [(''category'', TStr)]), (''reasoning'', TStr),
        (''recommended_action'', TStr)]"
    and tmp: "temperature (fetched_request []) = 1 / 10"
    by simp_all
  from req have b: "content (hd (messages (fetched_request [])))
     = ''\<newline>Analyze this email and classify it as spam or not spam.\<newline>\<newline>**Email Details:**\<newline>- From: unknown\<newline>- Subject: (no subject)\<newline>- Preview: \<newline>\<newline>Consider the following factors:\<newline>1. Sender reputation and authenticity\<newline>2. Subject line characteristics (urgency, sensationalism, suspicious patterns)\<newline>3. Content quality and professionalism\<newline>4. Presence of phishing indicators\<newline>5. Marketing/promotional characteristics\<newline>\<newline>Provide a structured classification with confidence score, spam type, reasoning, and recommended action.\<newline>''"
    by (simp add: spec_prompt_template_def spec_template_lines_def fetched_from_def
        fetched_subject_def fetched_snippet_def dict_get_default_def)
  from demo_run a sch tmp b show ?thesis by (intro conjI)
qed

text \<open>
  C5. Take a run in which the listing returned \<open>N\<close> message ids (the entries with a
  non-empty id), and in which every exception raised by a fetch or a classification call
  is an \<^verbatim>\<open>Exception\<close>; let \<open>M\<close> be the number of those exceptions. Then the run
  returns a summary, \<open>M\<close> errors are logged, one per failed id, and
  \<open>total_processed\<close>, the length of \<open>emails\<close> and \<open>spam_count + not_spam_count\<close> are
  all \<open>N - M\<close>. The ids of a run being distinct, as the data model has them, no id
  logged as failed is the id of an entry of \<open>emails\<close>.
\<close>

theorem C5_failed_messages_are_skipped:
  fixes ap :: "('w, 'f) app"
  assumes run: "classify_spam_workflow ap max_emails label w = (r, st')"
    and gm: "dict_get (mcp_servers ap) ''gmail'' = Some g"
    and ls: "gmail_list_messages g max_emails [label] w = (Inr lr, w1)"
    and exc: "\<forall>e \<in> set (raised (trace st')). is_Exception e"
  shows "\<exists>results es sc nsc.
     r = Inr results \<and>
     length (error_ids (trace st')) = length (raised (trace st')) \<and>
     length (raised (trace st')) \<le> length (listed_ids (dict_get_default lr ''messages'' [])) \<and>
     dict_get results ''total_processed''
       = Some (PInt (int (length (listed_ids (dict_get_default lr ''messages'' []))
                          - length (raised (trace st'))))) \<and>
     dict_get results ''emails'' = Some (PList es) \<and>
     length es = length (listed_ids (dict_get_default lr ''messages'' []))
                   - length (raised (trace st')) \<and>
     dict_get results ''spam_count'' = Some (PInt (int sc)) \<and>
     dict_get results ''not_spam_count'' = Some (PInt (int nsc)) \<and>
     sc + nsc = length (listed_ids (dict_get_default lr ''messages'' []))
                   - length (raised (trace st')) \<and>
     (distinct (listed_ids (dict_get_default lr ''messages'' [])) \<longrightarrow>
        (\<forall>v \<in> set es. \<forall>eid \<in> set (error_ids (trace st')).
           (case v of PDict d \<Rightarrow> dict_get d ''email_id'' | _ \<Rightarrow> None) \<noteq> Some (PStr eid)))"
proof -
  let ?ids = "listed_ids (dict_get_default lr ''messages'' [])"
  obtain results where r: "r = Inr results"
  proof (cases r)
    case (Inl e)
    from workflow_Inl_after_listing[OF run[unfolded Inl] gm ls] exc show ?thesis by blast
  next
    case (Inr results)
    then show ?thesis by (rule that)
  qed
  from run[unfolded r] gm ls show ?thesis
  proof (cases rule: workflow_Inr_listing)
    case (1 emails tr)
    note rd = run_trace_readings[OF 1(1)]
    let ?es = "map (\<lambda>email. PDict (email_projection ap email)) emails"
    let ?sc = "length (filter spam_of emails)"
    let ?nsc = "length (filter (\<lambda>email. \<not> spam_of email) emails)"
    have m: "length (error_ids (trace st')) = length (raised (trace st'))"
      by (simp add: rd loop_trace_raised_logged[OF 1(2)])
    have n: "length emails + length (raised (trace st')) = length ?ids"
      using loop_trace_lengths[OF 1(2)] by (simp add: rd loop_trace_raised_logged[OF 1(2)])
    then have len: "length emails = length ?ids - length (raised (trace st'))"
      and le: "length (raised (trace st')) \<le> length ?ids"
      by simp_all
    have sum: "?sc + ?nsc = length emails"
      by (rule sum_length_filter_compl)
    have dis: "\<forall>v \<in> set ?es. \<forall>eid \<in> set (error_ids (trace st')).
           (case v of PDict d \<Rightarrow> dict_get d ''email_id'' | _ \<Rightarrow> None) \<noteq> Some (PStr eid)"
      if "distinct ?ids"
      using loop_trace_disjoint[OF 1(2) that]
      by (auto simp: rd email_projection_id)
    show ?thesis
    proof (rule exI[of _ results], rule exI[of _ ?es], rule exI[of _ ?sc],
        rule exI[of _ ?nsc], intro conjI impI)
      show "dict_get results ''total_processed'' = Some (PInt (int (length ?ids - length (raised (trace st')))))"
        using 1(3) len by simp
      show "length ?es = length ?ids - length (raised (trace st'))"
        using len by simp
      show "?sc + ?nsc = length ?ids - length (raised (trace st'))"
        using sum len by simp
    qed (use r m le 1 dis in \<open>simp_all\<close>)
  qed
qed

theorem C5_failed_messages_are_skipped_witness:
  "dict_get (mcp_servers (demo_app demo_listing)) ''gmail'' = Some (demo_gmail demo_listing) \<and>
   gmail_list_messages (demo_gmail demo_listing) 20 [''INBOX''] 0
     = (Inr [(''messages'', demo_messages)], 0) \<and>
   listed_ids (dict_get_default [(''messages'', demo_messages)] ''messages'' [])
     = [''m1'', ''m2'', ''m3'', ''m4''] \<and>
   raised (trace (snd (classify_spam_workflow (demo_app demo_listing) 20 ''INBOX'' 0)))
     = [Exception ''fetch failed'', Exception ''model unavailable''] \<and>
   error_ids (trace (snd (classify_spam_workflow (demo_app demo_listing) 20 ''INBOX'' 0)))
     = [''m2'', ''m4''] \<and>
   (\<exists>results es.
      fst (classify_spam_workflow (demo_app demo_listing) 20 ''INBOX'' 0) = Inr results \<and>
      dict_get results ''total_processed'' = Some (PInt 2) \<and>
      dict_get results ''emails'' = Some (PList es) \<and> length es = 2 \<and>
      (\<forall>v \<in> set es. \<forall>eid \<in> set [''m2'', ''m4''].
           (case v of PDict d \<Rightarrow> dict_get d ''email_id'' | _ \<Rightarrow> None) \<noteq> Some (PStr eid)))"
proof -
  let ?run = "classify_spam_workflow (demo_app demo_listing) 20 ''INBOX'' 0"
  have ra: "raised (trace (snd ?run))
     = [Exception ''fetch failed'', Exception ''model unavailable'']"
    by code_simp
  have er: "error_ids (trace (snd ?run)) = [''m2'', ''m4'']"
    by code_simp
  have exc: "\<forall>e \<in> set (raised (trace (snd ?run))). is_Exception e"
    by (simp add: ra)
  have pair: "?run = (fst ?run, snd ?run)" by simp
  from C5_failed_messages_are_skipped[OF pair demo_gmail_configured demo_listing_answer exc,
      unfolded demo_listed_ids ra er]
  obtain results es where
    "fst ?run = Inr results"
    "dict_get results ''total_processed'' = Some (PInt 2)"
    "dict_get results ''emails'' = Some (PList es)" "length es = 2"
    "\<forall>v \<in> set es. \<forall>eid \<in> set [''m2'', ''m4''].
           (case v of PDict d \<Rightarrow> dict_get d ''email_id'' | _ \<Rightarrow> None) \<noteq> Some (PStr eid)"
    by auto
  with demo_gmail_configured demo_listing_answer demo_listed_ids ra er show ?thesis
    by blast
qed

text \<open>
  C8. The loop gives the same result on a listing and on the listing without its entries
  whose id is missing or empty: the same records and counts (or the same exception), the
  same state of the outside world, and the same trace, that is the same collaborator
  calls and the same log lines, but for the position \<open>i/n\<close> printed in the
  \<^verbatim>\<open>Processing email\<close> lines, which counts the passed-over entries too. In particular no
  fetch, no classification and no count is made for such an entry.
\<close>

theorem C8_malformed_entries_are_passed_over:
  "fst (process_messages ap g i n msgs acc st)
     = fst (process_messages ap g j m (filter well_formed msgs) acc st) \<and>
   world (snd (process_messages ap g i n msgs acc st))
     = world (snd (process_messages ap g j m (filter well_formed msgs) acc st)) \<and>
   map unnumbered (trace (snd (process_messages ap g i n msgs acc st)))
     = map unnumbered (trace (snd (process_messages ap g j m (filter well_formed msgs) acc st)))"
  by (rule process_messages_filter) simp_all

theorem C8_malformed_entries_are_passed_over_witness:
  "filter well_formed demo_messages
     = [[(''id'', ''m1'')], [(''id'', ''m2'')], [(''id'', ''m3'')], [(''id'', ''m4'')]] \<and>
   fst (process_messages (demo_app demo_listing) (demo_gmail demo_listing) 1 6 demo_messages
          ([], 0, 0) \<lparr>world = 0, trace = []\<rparr>)
     = fst (process_messages (demo_app demo_listing) (demo_gmail demo_listing) 1 4
          [[(''id'', ''m1'')], [(''id'', ''m2'')], [(''id'', ''m3'')], [(''id'', ''m4'')]]
          ([], 0, 0) \<lparr>world = 0, trace = []\<rparr>) \<and>
   fetched_ids (trace (snd (process_messages (demo_app demo_listing) (demo_gmail demo_listing)
          1 6 demo_messages ([], 0, 0) \<lparr>world = 0, trace = []\<rparr>)))
     = [''m1'', ''m2'', ''m3'', ''m4'']"
proof -
  have f: "filter well_formed demo_messages
     = [[(''id'', ''m1'')], [(''id'', ''m2'')], [(''id'', ''m3'')], [(''id'', ''m4'')]]"
    by (simp add: demo_messages_def well_formed_def dict_get_def)
  have ids: "fetched_ids (trace (snd (process_messages (demo_app demo_listing)
          (demo_gmail demo_listing) 1 6 demo_messages ([], 0, 0) \<lparr>world = 0, trace = []\<rparr>)))
     = [''m1'', ''m2'', ''m3'', ''m4'']"
    by code_simp
  from C8_malformed_entries_are_passed_over[where ap = "demo_app demo_listing"
      and g = "demo_gmail demo_listing" and i = 1 and n = 6 and msgs = demo_messages
      and acc = "([], 0, 0)" and st = "\<lparr>world = 0, trace = []\<rparr>" and j = 1 and m = 4,
      unfolded f] f ids
  show ?thesis by blast
qed

text \<open>
  C6. When the fetch of a message returns, the loop body reads \<open>subject\<close>, \<open>from\<close> and
  \<open>snippet\<close> from the answer and takes \<open>(no subject)\<close>, \<open>unknown\<close> and the empty
  string for a field that is absent. Nothing raises for an absent field: the body sends
  the classification request built from these values, and then it raises only if the
  classification call raises; otherwise it appends the record with these values and the
  classification, and counts it.
\<close>

theorem C6_missing_fields_get_defaults:
  fixes ap :: "('w, 'f) app" and st :: "('w, 'f) run_state"
  assumes "gmail_get_message g eid (world st) = (Inr er, w1)"
  shows "let subj = (case dict_get er ''subject'' of None \<Rightarrow> ''(no subject)'' | Some v \<Rightarrow> v);
             frm = (case dict_get er ''from'' of None \<Rightarrow> ''unknown'' | Some v \<Rightarrow> v);
             snip = (case dict_get er ''snippet'' of None \<Rightarrow> [] | Some v \<Rightarrow> v)
         in llm_requests (trace (snd (try_body ap g eid (emails, sc, nsc) st)))
              = llm_requests (trace st) @ [classification_request frm subj snip] \<and>
            (case llm_run ap (classification_request frm subj snip) w1 of
               (Inl e, w2) \<Rightarrow> fst (try_body ap g eid (emails, sc, nsc) st) = Inl e
             | (Inr c, w2) \<Rightarrow>
                 fst (try_body ap g eid (emails, sc, nsc) st)
                   = Inr (emails @ [\<lparr>email_id = eid, subject = subj, from_address = frm,
                                      snippet = snip, classification = Some c\<rparr>],
                          (if is_spam c then sc + 1 else sc),
                          (if is_spam c then nsc else nsc + 1)))"
proof -
  have d: "fetched_subject er = (case dict_get er ''subject'' of None \<Rightarrow> ''(no subject)'' | Some v \<Rightarrow> v)"
    "fetched_from er = (case dict_get er ''from'' of None \<Rightarrow> ''unknown'' | Some v \<Rightarrow> v)"
    "fetched_snippet er = (case dict_get er ''snippet'' of None \<Rightarrow> [] | Some v \<Rightarrow> v)"
    by (simp_all add: fetched_subject_def fetched_from_def fetched_snippet_def
        dict_get_default_def dict_get_def)
  obtain r2 w2 where l: "llm_run ap (fetched_request er) w1 = (r2, w2)"
    by (cases "llm_run ap (fetched_request er) w1") auto
  have "llm_requests (trace (snd (try_body ap g eid (emails, sc, nsc) st)))
          = llm_requests (trace st) @ [fetched_request er] \<and>
        (case llm_run ap (fetched_request er) w1 of
           (Inl e, w2) \<Rightarrow> fst (try_body ap g eid (emails, sc, nsc) st) = Inl e
         | (Inr c, w2) \<Rightarrow>
             fst (try_body ap g eid (emails, sc, nsc) st)
               = Inr (emails @ [recorded_info eid er c],
                      (if is_spam c then sc + 1 else sc),
                      (if is_spam c then nsc else nsc + 1)))"
  proof (cases r2)
    case (Inl e)
    from try_body_llm_raises[OF assms l[unfolded Inl]] l Inl show ?thesis
      by (simp add: llm_requests_def)
  next
    case (Inr c)
    from try_body_records[OF assms l[unfolded Inr]] l Inr show ?thesis
      by (simp add: llm_requests_def)
  qed
  note main = this[unfolded fetched_request_def recorded_info_def d]
  show ?thesis
    unfolding Let_def by (rule main)
qed

theorem C6_missing_fields_get_defaults_witness:
  "gmail_get_message (demo_gmail demo_listing) ''m3'' (world \<lparr>world = 1, trace = []\<rparr>)
     = (Inr [], 1) \<and>
   dict_get ([] :: email_result) ''subject'' = None \<and>
   dict_get ([] :: email_result) ''from'' = None \<and>
   dict_get ([] :: email_result) ''snippet'' = None \<and>
   llm_requests (trace (snd (try_body (demo_app demo_listing) (demo_gmail demo_listing) ''m3''
        ([], 0, 0) \<lparr>world = 1, trace = []\<rparr>)))
     = [classification_request ''unknown'' ''(no subject)'' []] \<and>
   fst (try_body (demo_app demo_listing) (demo_gmail demo_listing) ''m3'' ([], 0, 0)
        \<lparr>world = 1, trace = []\<rparr>)
     = Inr ([\<lparr>email_id = ''m3'', subject = ''(no subject)'', from_address = ''unknown'',
              snippet = [], classification = Some demo_ham\<rparr>], 0, 1)"
proof -
  have g: "gmail_get_message (demo_gmail demo_listing) ''m3''
             (world (\<lparr>world = 1, trace = []\<rparr> :: (nat, sfloat) run_state)) = (Inr [], 1)"
    by (simp add: demo_gmail_def)
  have l: "llm_run (demo_app demo_listing) (classification_request ''unknown'' ''(no subject)'' []) 1
             = (Inr demo_ham, Suc 1)"
    by (simp add: demo_app_def demo_llm_def)
  have is_ham: "\<not> is_spam demo_ham"
    by (simp add: demo_ham_def)
  from C6_missing_fields_get_defaults[OF g, where ap = "demo_app demo_listing"
      and emails = "[]" and sc = 0 and nsc = 0]
  have "llm_requests (trace (snd (try_body (demo_app demo_listing) (demo_gmail demo_listing)
          ''m3'' ([], 0, 0) \<lparr>world = 1, trace = []\<rparr>)))
     = [classification_request ''unknown'' ''(no subject)'' []] \<and>
   fst (try_body (demo_app demo_listing) (demo_gmail demo_listing) ''m3'' ([], 0, 0)
        \<lparr>world = 1, trace = []\<rparr>)
     = Inr ([\<lparr>email_id = ''m3'', subject = ''(no subject)'', from_address = ''unknown'',
              snippet = [], classification = Some demo_ham\<rparr>], 0, 1)"
    using l is_ham by (simp add: Let_def dict_get_def llm_requests_def)
  with g show ?thesis
    by (simp add: dict_get_def)
qed

end
